theory Spec2Isabelle
  imports Main "HOL-Library.Sublist"
begin

section \<open>JavaScript values and strings\<close>

text \<open>
  A JavaScript string is modelled as a \<^typ>\<open>string\<close>: the list of its code units, each
  below 256. The values that flow through the wizard's answer object are strings,
  booleans and \<^verbatim>\<open>undefined\<close>.
\<close>

datatype js_value = Undefined | Str string | Bool bool

text \<open>Truthiness, as used by \<^verbatim>\<open>a || b\<close> and \<^verbatim>\<open>c ? x : y\<close>.\<close>

fun truthy :: "js_value \<Rightarrow> bool" where
  "truthy Undefined = False"
| "truthy (Str s) = (s \<noteq> [])"
| "truthy (Bool b) = b"

definition js_or :: "js_value \<Rightarrow> js_value \<Rightarrow> js_value" where
  "js_or a b = (if truthy a then a else b)"

text \<open>String conversion, as performed by \<^verbatim>\<open>${v}\<close> in a template literal.\<close>

fun to_str :: "js_value \<Rightarrow> string" where
  "to_str Undefined = ''undefined''"
| "to_str (Str s) = s"
| "to_str (Bool b) = (if b then ''true'' else ''false'')"

text \<open>\<^verbatim>\<open>String.prototype.includes\<close>: the argument occurs as a contiguous substring.\<close>

definition str_includes :: "string \<Rightarrow> string \<Rightarrow> bool" where
  "str_includes s sub = sublist sub s"

text \<open>
  \<^verbatim>\<open>String.prototype.split\<close> on a one-character separator. The result is never empty:
  the empty string splits into one empty segment.
\<close>

fun split :: "char \<Rightarrow> string \<Rightarrow> string list" where
  "split sep [] = [[]]"
| "split sep (c # cs) =
     (if c = sep then [] # split sep cs
      else (case split sep cs of seg # segs \<Rightarrow> (c # seg) # segs | [] \<Rightarrow> [[c]]))"

text \<open>
  \<^verbatim>\<open>String.prototype.trim\<close>: white space among the code units below 256 is TAB, LF, VT,
  FF, CR, SPACE and NO-BREAK SPACE.
\<close>

definition is_white_space :: "char \<Rightarrow> bool" where
  "is_white_space c = (of_char c \<in> {9, 10, 11, 12, 13, 32, 160 :: nat})"

definition trim :: "string \<Rightarrow> string" where
  "trim s = rev (dropWhile is_white_space (rev (dropWhile is_white_space s)))"

text \<open>
  \<^verbatim>\<open>String.prototype.toLowerCase\<close> on code units below 256: the letters A to Z and the
  Latin-1 capitals (0xC0 to 0xDE, without the multiplication sign 0xD7) move up by 32.
\<close>

definition lower_char :: "char \<Rightarrow> char" where
  "lower_char c =
     (let n = (of_char c :: nat) in
      if (65 \<le> n \<and> n \<le> 90) \<or> (192 \<le> n \<and> n \<le> 222 \<and> n \<noteq> 215)
      then char_of (n + 32) else c)"

definition toLowerCase :: "string \<Rightarrow> string" where
  "toLowerCase s = map lower_char s"

text \<open>\<^verbatim>\<open>s.replace(' ', '')\<close>: a string pattern replaces its first occurrence only.\<close>

definition replace_space :: "string \<Rightarrow> string" where
  "replace_space s = remove1 (CHR '' '') s"

section \<open>The route handler templates\<close>

definition HttpMethod :: "string list" where
  "HttpMethod = [''GET'', ''POST'', ''PUT'', ''PATCH'', ''DELETE'']"

record template_definition =
  name :: string
  description :: string
  getContent :: "js_value \<Rightarrow> js_value \<Rightarrow> js_value \<Rightarrow> string"

definition import_line :: "js_value \<Rightarrow> string" where
  "import_line useTypeScript =
     ''import { '' @ (if truthy useTypeScript then ''NextRequest, '' else '''')
       @ ''NextResponse } from 'next/server';\<newline>''"

definition request_param :: "js_value \<Rightarrow> string" where
  "request_param useTypeScript =
     ''(request'' @ (if truthy useTypeScript then '': NextRequest'' else '''')"

definition basic_getContent :: "js_value \<Rightarrow> js_value \<Rightarrow> js_value \<Rightarrow> string" where
  "basic_getContent method routeName useTypeScript =
     ''\<newline>'' @ import_line useTypeScript
     @ ''\<newline>export async function '' @ to_str method @ request_param useTypeScript
     @ '') {\<newline>  return NextResponse.json({ message: 'Hello from '' @ to_str routeName
     @ ''!' }, { status: 200 });\<newline>}\<newline>''"

definition withParams_getContent :: "js_value \<Rightarrow> js_value \<Rightarrow> js_value \<Rightarrow> string" where
  "withParams_getContent method routeName useTypeScript =
     ''\<newline>'' @ import_line useTypeScript
     @ ''\<newline>export async function '' @ to_str method @ request_param useTypeScript
     @ '', { params }''
     @ (if truthy useTypeScript then '': { params: { [key: string]: string } }'' else '''')
     @ '') {\<newline>  const queryParams = request.nextUrl.searchParams\<newline>  return NextResponse.json({\<newline>    message: 'Hello from ''
     @ to_str routeName
     @ ''!',\<newline>    pathParams: params,\<newline>    queryParams,\<newline>  });\<newline>}\<newline>''"

definition withErrorHandling_getContent :: "js_value \<Rightarrow> js_value \<Rightarrow> js_value \<Rightarrow> string" where
  "withErrorHandling_getContent method routeName useTypeScript =
     ''\<newline>'' @ import_line useTypeScript
     @ ''\<newline>export async function '' @ to_str method @ request_param useTypeScript
     @ '') {\<newline>  try {\<newline>    // Your logic here\<newline>    return NextResponse.json({ message: 'Hello from ''
     @ to_str routeName
     @ ''!' }, { status: 200 });\<newline>  } catch (error) {\<newline>    console.error('Error in ''
     @ to_str routeName
     @ '':', error);\<newline>    return NextResponse.json({ error: 'Internal Server Error' }, { status: 500 });\<newline>  }\<newline>}\<newline>''"

definition withValidation_getContent :: "js_value \<Rightarrow> js_value \<Rightarrow> js_value \<Rightarrow> string" where
  "withValidation_getContent method routeName useTypeScript =
     ''\<newline>'' @ import_line useTypeScript
     @ ''import { z } from 'zod';\<newline>\<newline>const schema = z.object({\<newline>  name: z.string().min(1),\<newline>  email: z.string().email(),\<newline>});\<newline>''
     @ ''\<newline>export async function '' @ to_str method @ request_param useTypeScript
     @ '') {\<newline>  try {\<newline>    const body = await request.json();\<newline>    const validatedData = schema.parse(body);\<newline>    return NextResponse.json({ message: 'Data validated successfully', data: validatedData });\<newline>  } catch (error) {\<newline>    if (error instanceof z.ZodError) {\<newline>      return NextResponse.json({ error: 'Validation failed', details: error.errors }, { status: 400 });\<newline>    }\<newline>    console.error('Error in ''
     @ to_str routeName
     @ '':', error);\<newline>    return NextResponse.json({ error: 'Internal Server Error' }, { status: 500 });\<newline>  }\<newline>}\<newline>''"

text \<open>
  The \<^verbatim>\<open>templates\<close> object, as the list of its entries in declaration order (the order
  of \<^verbatim>\<open>Object.entries\<close>), and the property read \<^verbatim>\<open>templates[key]\<close>.
\<close>

definition templates_entries :: "(string \<times> template_definition) list" where
  "templates_entries =
     [(''basic'',
        \<lparr>name = ''Basic'',
         description = ''A simple API route with a JSON response'',
         getContent = basic_getContent\<rparr>),
      (''withParams'',
        \<lparr>name = ''With Params'',
         description = ''An API route that handles path and query parameters'',
         getContent = withParams_getContent\<rparr>),
      (''withErrorHandling'',
        \<lparr>name = ''With Error Handling'',
         description = ''An API route with built-in error handling'',
         getContent = withErrorHandling_getContent\<rparr>),
      (''withValidation'',
        \<lparr>name = ''With Validation'',
         description = ''An API route with request body validation'',
         getContent = withValidation_getContent\<rparr>)]"

definition templates :: "string \<Rightarrow> template_definition option" where
  "templates key = map_of templates_entries key"

section \<open>Paths\<close>

text \<open>
  \<^verbatim>\<open>path.join\<close> and \<^verbatim>\<open>path.dirname\<close> belong to the Node.js runtime, not to this
  repository. They are modelled after the POSIX implementation: \<^verbatim>\<open>join\<close> drops empty
  arguments, glues the others with a slash and normalises the result, which removes
  empty and \<^verbatim>\<open>.\<close> segments and resolves \<^verbatim>\<open>..\<close> against the segment that precedes it.
\<close>

fun join_sep :: "string list \<Rightarrow> string" where
  "join_sep [] = []"
| "join_sep [x] = x"
| "join_sep (x # y # ys) = x @ ''/'' @ join_sep (y # ys)"

fun normalize_segments :: "bool \<Rightarrow> string list \<Rightarrow> string list \<Rightarrow> string list" where
  "normalize_segments allowAboveRoot res [] = res"
| "normalize_segments allowAboveRoot res (seg # segs) =
     (if seg = [] \<or> seg = ''.'' then normalize_segments allowAboveRoot res segs
      else if seg = ''..'' then
        (if res \<noteq> [] \<and> last res \<noteq> ''..''
         then normalize_segments allowAboveRoot (butlast res) segs
         else if allowAboveRoot
         then normalize_segments allowAboveRoot (res @ [''..'']) segs
         else normalize_segments allowAboveRoot res segs)
      else normalize_segments allowAboveRoot (res @ [seg]) segs)"

definition normalizeString :: "string \<Rightarrow> bool \<Rightarrow> string" where
  "normalizeString path allowAboveRoot =
     join_sep (normalize_segments allowAboveRoot [] (split (CHR ''/'') path))"

definition path_normalize :: "string \<Rightarrow> string" where
  "path_normalize path =
     (if path = [] then ''.''
      else
        let isAbsolute = (hd path = CHR ''/'');
            trailingSeparator = (last path = CHR ''/'');
            p = normalizeString path (\<not> isAbsolute)
        in if p = [] then (if isAbsolute then ''/'' else if trailingSeparator then ''./'' else ''.'')
           else (let p' = (if trailingSeparator then p @ ''/'' else p)
                 in if isAbsolute then ''/'' @ p' else p'))"

definition path_join :: "string list \<Rightarrow> string" where
  "path_join args =
     (let joined = filter (\<lambda>arg. arg \<noteq> []) args
      in if joined = [] then ''.'' else path_normalize (join_sep joined))"

definition path_dirname :: "string \<Rightarrow> string" where
  "path_dirname path =
     (if path = [] then ''.''
      else
        let hasRoot = (hd path = CHR ''/'');
            upto_name = dropWhile (\<lambda>c. c \<noteq> CHR ''/'')
                       (dropWhile (\<lambda>c. c = CHR ''/'') (rev (tl path)));
            end_idx = length upto_name
        in if upto_name = [] then (if hasRoot then ''/'' else ''.'')
           else if hasRoot \<and> end_idx = 1 then ''//''
           else take end_idx path)"

section \<open>The file system\<close>

text \<open>
  The file system holds the content of every file and the set of directories. Whether
  a call fails (permission denied, disk full, a file in the way) is decided by the
  environment, from the arguments and the current state; a failing call changes nothing.
\<close>

record filesystem =
  files :: "string \<rightharpoonup> string"
  dirs :: "string set"

datatype js_error = TypeError | SystemError string

record env =
  cwd :: string
  mkdir_error :: "string \<Rightarrow> filesystem \<Rightarrow> string option"
  write_error :: "string \<Rightarrow> string \<Rightarrow> filesystem \<Rightarrow> string option"

text \<open>The directory itself and each of its ancestors below the root.\<close>

definition parent_dirs :: "string \<Rightarrow> string list" where
  "parent_dirs d = filter (\<lambda>p. p \<noteq> [] \<and> (p = d \<or> d ! length p = CHR ''/'')) (prefixes d)"

text \<open>\<^verbatim>\<open>fs.mkdirSync(dir, { recursive: true })\<close> and \<^verbatim>\<open>fs.writeFileSync(file, data)\<close>.\<close>

definition mkdirSync :: "env \<Rightarrow> string \<Rightarrow> filesystem \<Rightarrow> js_error + filesystem" where
  "mkdirSync e dir fs =
     (case mkdir_error e dir fs of
        Some code \<Rightarrow> Inl (SystemError code)
      | None \<Rightarrow> Inr (fs\<lparr>dirs := dirs fs \<union> set (parent_dirs dir)\<rparr>))"

definition writeFileSync :: "env \<Rightarrow> string \<Rightarrow> string \<Rightarrow> filesystem \<Rightarrow> js_error + filesystem" where
  "writeFileSync e file data fs =
     (case write_error e file data fs of
        Some code \<Rightarrow> Inl (SystemError code)
      | None \<Rightarrow> Inr (fs\<lparr>files := (files fs)(file \<mapsto> data)\<rparr>))"

section \<open>The route emitter\<close>

text \<open>
  What the program writes to the terminal. Colours are left out, and so is the elapsed
  time in the emitter's success line, which depends on the clock only.
\<close>

datatype term_output =
    Console_clear
  | Spinner_start string
  | Spinner_stop string
  | P_intro string
  | P_outro string
  | P_cancel string
  | P_log_step nat string
  | Prompt_text string js_value
  | Prompt_select string "(string \<times> string) list" js_value
  | Prompt_confirm string js_value
  | Validation_error string
  | Console_log_generated string
  | Console_error_generating js_value js_error

record config =
  method_field :: js_value
  template :: "template_definition option"

record options =
  useTypeScript :: js_value
  baseDir :: js_value

record request =
  routeName :: js_value
  config :: config
  options :: options

text \<open>\<^verbatim>\<open>defaultConfig\<close>: TypeScript off, and the working directory of the process.\<close>

definition defaultConfig :: "env \<Rightarrow> options" where
  "defaultConfig e = \<lparr>useTypeScript = Bool False, baseDir = Str (cwd e)\<rparr>"

text \<open>
  The body of the \<^verbatim>\<open>try\<close> block of \<^verbatim>\<open>generateApiRoute\<close>: the path written, or the
  error thrown, with the file system as the calls left it. Calling \<^verbatim>\<open>split\<close> on a value
  that is not a string, passing \<^verbatim>\<open>path.join\<close> a base directory that is not a string and
  reading \<^verbatim>\<open>getContent\<close> from a missing template each throw a \<^verbatim>\<open>TypeError\<close>.
\<close>

definition try_generate :: "env \<Rightarrow> request \<Rightarrow> filesystem \<Rightarrow> (js_error + string) \<times> filesystem" where
  "try_generate e req fs =
     (let useTS = (case useTypeScript (options req) of
                     Undefined \<Rightarrow> useTypeScript (defaultConfig e) | v \<Rightarrow> v);
          base = (case baseDir (options req) of
                    Undefined \<Rightarrow> baseDir (defaultConfig e) | v \<Rightarrow> v);
          extension = (if truthy useTS then ''ts'' else ''js'')
      in case routeName req of
           Str rn \<Rightarrow>
             (let routeParts = split (CHR ''/'') rn
              in case base of
                   Str b \<Rightarrow>
                     (let filePath =
                            path_join ([b, ''app'', ''api''] @ routeParts @ [''route.'' @ extension])
                      in case template (config req) of
                           None \<Rightarrow> (Inl TypeError, fs)
                         | Some t \<Rightarrow>
                             (let content = getContent t (method_field (config req)) (routeName req) useTS
                              in case mkdirSync e (path_dirname filePath) fs of
                                   Inl err \<Rightarrow> (Inl err, fs)
                                 | Inr fs1 \<Rightarrow>
                                     (case writeFileSync e filePath content fs1 of
                                        Inl err \<Rightarrow> (Inl err, fs1)
                                      | Inr fs2 \<Rightarrow> (Inr filePath, fs2))))
                 | _ \<Rightarrow> (Inl TypeError, fs))
         | _ \<Rightarrow> (Inl TypeError, fs))"

definition generateApiRoute :: "env \<Rightarrow> request \<Rightarrow> filesystem \<Rightarrow> term_output list \<times> filesystem" where
  "generateApiRoute e req fs =
     (case try_generate e req fs of
        (Inr filePath, fs') \<Rightarrow> ([Console_log_generated filePath], fs')
      | (Inl err, fs') \<Rightarrow> ([Console_error_generating (routeName req) err], fs'))"

section \<open>The prompt wizard\<close>

datatype step = Route_Name | HTTP_Method | Template | TypeScript | Base_Directory

fun step_name :: "step \<Rightarrow> string" where
  "step_name Route_Name = ''Route Name''"
| "step_name HTTP_Method = ''HTTP Method''"
| "step_name Template = ''Template''"
| "step_name TypeScript = ''TypeScript''"
| "step_name Base_Directory = ''Base Directory''"

definition steps :: "step list" where
  "steps = [Route_Name, HTTP_Method, Template, TypeScript, Base_Directory]"

text \<open>
  The \<^verbatim>\<open>answers\<close> object: reading a property that was never stored gives
  \<^verbatim>\<open>undefined\<close>. The wizard's state is this object and the cursor.
\<close>

type_synonym answers = "string \<Rightarrow> js_value"

record wizard =
  answers :: answers
  currentStep :: nat

text \<open>The \<^verbatim>\<open>validate\<close> callback of the route name prompt: an error message, or nothing.\<close>

definition validate_route_name :: "string \<Rightarrow> string option" where
  "validate_route_name v =
     (if trim v = [] then Some ''Route name cannot be empty'' else None)"

text \<open>
  The three prompt widgets with the options the wizard passes them: a message, the
  validator of a text prompt (one that accepts everything where the source gives none),
  the value and label of each choice of a select prompt, and the initial value.
\<close>

datatype prompt =
    Text_prompt string "string \<Rightarrow> string option" js_value
  | Select_prompt string "(string \<times> string) list" js_value
  | Confirm_prompt string js_value

text \<open>The \<^verbatim>\<open>switch (step)\<close> of the loop body.\<close>

fun prompt_for :: "env \<Rightarrow> answers \<Rightarrow> step \<Rightarrow> prompt" where
  "prompt_for e a Route_Name =
     Text_prompt ''Enter the route name (e.g., users/[id]):'' validate_route_name
       (js_or (a ''routename'') (Str []))"
| "prompt_for e a HTTP_Method =
     Select_prompt ''Select the HTTP method:''
       (map (\<lambda>m. (m, m)) HttpMethod @ [(''back'', ''Go back'')])
       (a ''httpmethod'')"
| "prompt_for e a Template =
     Select_prompt ''Choose a template:''
       (map (\<lambda>(key, t). (key, name t @ '' - '' @ description t)) templates_entries
          @ [(''back'', ''Go back'')])
       (a ''template'')"
| "prompt_for e a TypeScript =
     Confirm_prompt ''Use TypeScript?''
       (if a ''typescript'' \<noteq> Undefined then a ''typescript''
        else useTypeScript (defaultConfig e))"
| "prompt_for e a Base_Directory =
     Text_prompt ''Enter the base directory (leave empty for current directory):'' (\<lambda>v. None)
       (js_or (a ''basedirectory'') (baseDir (defaultConfig e)))"

fun show_prompt :: "prompt \<Rightarrow> term_output" where
  "show_prompt (Text_prompt message validate initialValue) = Prompt_text message initialValue"
| "show_prompt (Select_prompt message choices initialValue) =
     Prompt_select message choices initialValue"
| "show_prompt (Confirm_prompt message initialValue) = Prompt_confirm message initialValue"

text \<open>
  The widgets come from the prompt library, not from this repository. What the model
  takes from them: the user aborts, submits a text, picks a choice or answers yes or no;
  an abort resolves the prompt to the cancel symbol; a text prompt shows the validator's
  message and stays open when the validator objects, and resolves to the text
  otherwise; a select prompt resolves to the value of a choice it offers; a confirm
  prompt resolves to a boolean; an input a widget has no use for leaves it open.
\<close>

datatype user_input = Ctrl_C | Typed string | Picked string | Answered bool

datatype reaction = Resolved js_value | Cancel_symbol | Rejected string | Ignored

fun react :: "prompt \<Rightarrow> user_input \<Rightarrow> reaction" where
  "react pr Ctrl_C = Cancel_symbol"
| "react (Text_prompt message validate initialValue) (Typed s) =
     (case validate s of Some problem \<Rightarrow> Rejected problem | None \<Rightarrow> Resolved (Str s))"
| "react (Select_prompt message choices initialValue) (Picked v) =
     (if v \<in> set (map fst choices) then Resolved (Str v) else Ignored)"
| "react (Confirm_prompt message initialValue) (Answered b) = Resolved (Bool b)"
| "react pr i = Ignored"

text \<open>
  The end of the loop body: \<^verbatim>\<open>back\<close> moves the cursor down, any other answer is stored
  under the step's name in lower case with its first space removed, and the cursor
  moves up.
\<close>

definition answer_key :: "step \<Rightarrow> string" where
  "answer_key s = replace_space (toLowerCase (step_name s))"

definition handle_answer :: "wizard \<Rightarrow> js_value \<Rightarrow> wizard" where
  "handle_answer w answer =
     (if answer = Str ''back''
      then w\<lparr>currentStep := nat (max 0 (int (currentStep w) - 1))\<rparr>
      else w\<lparr>answers := (answers w)(answer_key (steps ! currentStep w) := answer),
             currentStep := currentStep w + 1\<rparr>)"

text \<open>
  The \<^verbatim>\<open>while\<close> loop, run on the list of the user's inputs. It ends when the cursor has
  passed the last step, when a prompt is cancelled, or with a prompt left open when
  the inputs are used up.
\<close>

datatype loop_result = Completed answers | Cancelled | Pending wizard

fun emit :: "term_output list \<Rightarrow> term_output list \<times> 'a \<Rightarrow> term_output list \<times> 'a" where
  "emit os (outs, r) = (os @ outs, r)"

fun main_loop :: "env \<Rightarrow> wizard \<Rightarrow> user_input list \<Rightarrow> term_output list \<times> loop_result"
  and await_answer :: "env \<Rightarrow> wizard \<Rightarrow> user_input list \<Rightarrow> term_output list \<times> loop_result"
where
  "main_loop e w ins =
     (if currentStep w < length steps
      then emit [P_log_step (currentStep w + 1) (step_name (steps ! currentStep w)),
                 show_prompt (prompt_for e (answers w) (steps ! currentStep w))]
             (await_answer e w ins)
      else ([], Completed (answers w)))"
| "await_answer e w [] = ([], Pending w)"
| "await_answer e w (i # ins) =
     (case react (prompt_for e (answers w) (steps ! currentStep w)) i of
        Ignored \<Rightarrow> await_answer e w ins
      | Rejected problem \<Rightarrow> emit [Validation_error problem] (await_answer e w ins)
      | Cancel_symbol \<Rightarrow> ([P_cancel ''Operation cancelled.''], Cancelled)
      | Resolved answer \<Rightarrow> main_loop e (handle_answer w answer) ins)"

section \<open>The program\<close>

text \<open>
  \<^verbatim>\<open>main\<close>: the terminal output, how the process ends and the file system it leaves. A
  cancelled prompt calls \<^verbatim>\<open>process.exit(0)\<close>; a run that reaches the end of \<^verbatim>\<open>main\<close>
  ends with status 0 as well. Nothing outside the emitter's \<^verbatim>\<open>try\<close> block throws in
  this model, so the handler that exits with status 1 is never entered.
\<close>

datatype exit_status = Exited nat | Awaiting_input

definition boot_output :: "term_output list" where
  "boot_output =
     [Console_clear,
      Spinner_start ''Initializing Next.js API Route Generator'',
      Spinner_stop ''Next.js API Route Generator initialized'',
      P_intro ''Welcome to the Next.js API Route Generator!\<newline>Create API routes with ease for your Next.js application.'']"

definition closing_output :: "term_output list" where
  "closing_output =
     [Spinner_stop ''API route generated successfully'',
      P_outro ''API route generation complete!\<newline>Your new API route is ready to use.'']"

definition request_of :: "env \<Rightarrow> answers \<Rightarrow> request" where
  "request_of e a =
     \<lparr>routeName = a ''routename'',
      config = \<lparr>method_field = a ''httpmethod'', template = templates (to_str (a ''template''))\<rparr>,
      options = \<lparr>useTypeScript = a ''typescript'',
                 baseDir = js_or (a ''basedirectory'') (baseDir (defaultConfig e))\<rparr>\<rparr>"

definition initial_wizard :: wizard where
  "initial_wizard = \<lparr>answers = (\<lambda>k. Undefined), currentStep = 0\<rparr>"

definition main :: "env \<Rightarrow> user_input list \<Rightarrow> filesystem \<Rightarrow> term_output list \<times> exit_status \<times> filesystem" where
  "main e ins fs =
     (case main_loop e initial_wizard ins of
        (outs, Pending w) \<Rightarrow> (boot_output @ outs, Awaiting_input, fs)
      | (outs, Cancelled) \<Rightarrow> (boot_output @ outs, Exited 0, fs)
      | (outs, Completed a) \<Rightarrow>
          (case generateApiRoute e (request_of e a) fs of
             (gen_outs, fs') \<Rightarrow>
               (boot_output @ outs @ [Spinner_start ''Generating API route''] @ gen_outs
                  @ closing_output,
                Exited 0, fs')))"

section \<open>What a completed wizard holds\<close>

text \<open>
  The kind of value each step stores: a route name that passes the validator, one of
  the five HTTP methods, one of the four template keys, a boolean, a base directory;
  never the text \<^verbatim>\<open>back\<close>. The wizard holds such a value for every step below its
  cursor.
\<close>

fun step_answer_ok :: "step \<Rightarrow> js_value \<Rightarrow> bool" where
  "step_answer_ok Route_Name v = (case v of Str s \<Rightarrow> trim s \<noteq> [] \<and> s \<noteq> ''back'' | _ \<Rightarrow> False)"
| "step_answer_ok HTTP_Method v = (case v of Str s \<Rightarrow> s \<in> set HttpMethod | _ \<Rightarrow> False)"
| "step_answer_ok Template v =
     (case v of Str s \<Rightarrow> s \<in> set (map fst templates_entries) | _ \<Rightarrow> False)"
| "step_answer_ok TypeScript v = (case v of Bool b \<Rightarrow> True | _ \<Rightarrow> False)"
| "step_answer_ok Base_Directory v = (case v of Str s \<Rightarrow> s \<noteq> ''back'' | _ \<Rightarrow> False)"

definition answered_below :: "nat \<Rightarrow> answers \<Rightarrow> bool" where
  "answered_below n a = (\<forall>i < n. step_answer_ok (steps ! i) (a (answer_key (steps ! i))))"

text \<open>The outputs that come from the wizard's loop, as opposed to the emitter.\<close>

fun wizard_output :: "term_output \<Rightarrow> bool" where
  "wizard_output (P_log_step n s) = True"
| "wizard_output (Prompt_text m v) = True"
| "wizard_output (Prompt_select m cs v) = True"
| "wizard_output (Prompt_confirm m v) = True"
| "wizard_output (Validation_error m) = True"
| "wizard_output (P_cancel m) = True"
| "wizard_output x = False"

section \<open>Properties of the templates\<close>

lemma str_includesI: "s = ps @ sub @ ss \<Longrightarrow> str_includes s sub"
  by (simp add: str_includes_def)

lemma templates_basic:
  "templates ''basic'' =
     Some \<lparr>name = ''Basic'', description = ''A simple API route with a JSON response'',
           getContent = basic_getContent\<rparr>"
  by (simp add: templates_def templates_entries_def)

lemma templates_withParams:
  "templates ''withParams'' =
     Some \<lparr>name = ''With Params'',
           description = ''An API route that handles path and query parameters'',
           getContent = withParams_getContent\<rparr>"
  by (simp add: templates_def templates_entries_def)

lemma templates_withErrorHandling:
  "templates ''withErrorHandling'' =
     Some \<lparr>name = ''With Error Handling'',
           description = ''An API route with built-in error handling'',
           getContent = withErrorHandling_getContent\<rparr>"
  by (simp add: templates_def templates_entries_def)

lemma templates_withValidation:
  "templates ''withValidation'' =
     Some \<lparr>name = ''With Validation'',
           description = ''An API route with request body validation'',
           getContent = withValidation_getContent\<rparr>"
  by (simp add: templates_def templates_entries_def)

lemma template_keys:
  "map fst templates_entries = [''basic'', ''withParams'', ''withErrorHandling'', ''withValidation'']"
  by (simp add: templates_entries_def)

lemma handler_head:
  "''\<newline>export async function '' @ to_str m @ request_param ts @ rest =
     ''\<newline>'' @ (''export async function '' @ to_str m @ ''(request'')
       @ (if truthy ts then '': NextRequest'' else '''') @ rest"
  by (simp add: request_param_def)

lemma basic_exports:
  "str_includes (basic_getContent m r ts) (''export async function '' @ to_str m @ ''(request'')"
  unfolding basic_getContent_def handler_head
  by (rule str_includesI [where ps = "''\<newline>'' @ import_line ts @ ''\<newline>''"]) simp

lemma withParams_exports:
  "str_includes (withParams_getContent m r ts) (''export async function '' @ to_str m @ ''(request'')"
  unfolding withParams_getContent_def handler_head
  by (rule str_includesI [where ps = "''\<newline>'' @ import_line ts @ ''\<newline>''"]) simp

lemma withErrorHandling_exports:
  "str_includes (withErrorHandling_getContent m r ts)
     (''export async function '' @ to_str m @ ''(request'')"
  unfolding withErrorHandling_getContent_def handler_head
  by (rule str_includesI [where ps = "''\<newline>'' @ import_line ts @ ''\<newline>''"]) simp

lemma withValidation_exports:
  "str_includes (withValidation_getContent m r ts)
     (''export async function '' @ to_str m @ ''(request'')"
  unfolding withValidation_getContent_def handler_head
  by (rule str_includesI [where ps = "''\<newline>'' @ import_line ts @ ''import { z } from 'zod';\<newline>\<newline>const schema = z.object({\<newline>  name: z.string().min(1),\<newline>  email: z.string().email(),\<newline>});\<newline>\<newline>''"]) simp

lemma str_includes_prefix: "str_includes s (a @ b) \<Longrightarrow> str_includes s a"
  unfolding str_includes_def sublist_def by (metis append.assoc)

lemma exports_name:
  assumes "str_includes s (''export async function '' @ m @ ''(request'')"
  shows "str_includes s (''export async function '' @ m)"
  using assms str_includes_prefix [of s "''export async function '' @ m" "''(request''"] by simp

text \<open>
  C3. For each of the five HTTP methods, each of the four template keys and both values
  of the TypeScript flag (and any route name), the template exists and the text it
  renders contains \<^verbatim>\<open>export async function\<close> followed by the method name; the name is
  followed at once by the parameter list, so the exported handler is named exactly as
  the method.
\<close>

theorem rendered_text_exports_method:
  assumes "m \<in> set HttpMethod"
    and "k \<in> set (map fst templates_entries)"
  shows "\<exists>t. templates k = Some t
           \<and> str_includes (getContent t (Str m) r (Bool ts)) (''export async function '' @ m)
           \<and> str_includes (getContent t (Str m) r (Bool ts))
                (''export async function '' @ m @ ''(request'')"
proof -
  from assms(2) consider "k = ''basic''" | "k = ''withParams''" | "k = ''withErrorHandling''"
    | "k = ''withValidation''"
    unfolding template_keys by auto
  then show ?thesis
  proof cases
    case 1
    have long: "str_includes (basic_getContent (Str m) r (Bool ts))
            (''export async function '' @ m @ ''(request'')"
      using basic_exports [of "Str m" r "Bool ts"] by simp
    with 1 exports_name [OF long] show ?thesis
      by (simp add: templates_basic)
  next
    case 2
    have long: "str_includes (withParams_getContent (Str m) r (Bool ts))
            (''export async function '' @ m @ ''(request'')"
      using withParams_exports [of "Str m" r "Bool ts"] by simp
    with 2 exports_name [OF long] show ?thesis
      by (simp add: templates_withParams)
  next
    case 3
    have long: "str_includes (withErrorHandling_getContent (Str m) r (Bool ts))
            (''export async function '' @ m @ ''(request'')"
      using withErrorHandling_exports [of "Str m" r "Bool ts"] by simp
    with 3 exports_name [OF long] show ?thesis
      by (simp add: templates_withErrorHandling)
  next
    case 4
    have long: "str_includes (withValidation_getContent (Str m) r (Bool ts))
            (''export async function '' @ m @ ''(request'')"
      using withValidation_exports [of "Str m" r "Bool ts"] by simp
    with 4 exports_name [OF long] show ?thesis
      by (simp add: templates_withValidation)
  qed
qed

theorem rendered_text_exports_method_witness:
  "''PATCH'' \<in> set HttpMethod \<and> ''withParams'' \<in> set (map fst templates_entries)
   \<and> (\<exists>t. templates ''withParams'' = Some t
         \<and> str_includes (getContent t (Str ''PATCH'') (Str ''users/[id]'') (Bool True))
              ''export async function PATCH''
         \<and> str_includes (getContent t (Str ''PATCH'') (Str ''users/[id]'') (Bool True))
              ''export async function PATCH(request'')"
proof -
  have m: "''PATCH'' \<in> set HttpMethod"
    by (simp add: HttpMethod_def)
  have k: "''withParams'' \<in> set (map fst templates_entries)"
    by (simp add: template_keys)
  show ?thesis
    using m k rendered_text_exports_method [OF m k, of "Str ''users/[id]''" True] by simp
qed

text \<open>
  C4. For every method, route name and TypeScript flag, the text rendered by the
  \<^verbatim>\<open>withValidation\<close> template contains, inside its \<^verbatim>\<open>catch\<close> block, a response with
  status 400 guarded by the test for a schema validation error and, after it, a
  different response with status 500 for every other error.
\<close>

theorem withValidation_has_400_and_500_branches:
  "\<exists>t. templates ''withValidation'' = Some t \<and>
     (\<exists>a b c. getContent t m r ts =
        a @ ''catch (error) {\<newline>    if (error instanceof z.ZodError) {\<newline>      return NextResponse.json({ error: 'Validation failed', details: error.errors }, { status: 400 });\<newline>    }''
          @ b @ ''return NextResponse.json({ error: 'Internal Server Error' }, { status: 500 });''
          @ c)"
proof -
  have "withValidation_getContent m r ts =
      (''\<newline>'' @ import_line ts
        @ ''import { z } from 'zod';\<newline>\<newline>const schema = z.object({\<newline>  name: z.string().min(1),\<newline>  email: z.string().email(),\<newline>});\<newline>''
        @ ''\<newline>export async function '' @ to_str m @ request_param ts
        @ '') {\<newline>  try {\<newline>    const body = await request.json();\<newline>    const validatedData = schema.parse(body);\<newline>    return NextResponse.json({ message: 'Data validated successfully', data: validatedData });\<newline>  } '')
      @ ''catch (error) {\<newline>    if (error instanceof z.ZodError) {\<newline>      return NextResponse.json({ error: 'Validation failed', details: error.errors }, { status: 400 });\<newline>    }''
      @ (''\<newline>    console.error('Error in '' @ to_str r @ '':', error);\<newline>    '')
      @ ''return NextResponse.json({ error: 'Internal Server Error' }, { status: 500 });''
      @ ''\<newline>  }\<newline>}\<newline>''"
    by (simp add: withValidation_getContent_def)
  then have "\<exists>a b c. withValidation_getContent m r ts =
        a @ ''catch (error) {\<newline>    if (error instanceof z.ZodError) {\<newline>      return NextResponse.json({ error: 'Validation failed', details: error.errors }, { status: 400 });\<newline>    }''
          @ b @ ''return NextResponse.json({ error: 'Internal Server Error' }, { status: 500 });''
          @ c"
    by (intro exI)
  then show ?thesis
    unfolding templates_withValidation by simp
qed

section \<open>Properties of the emitter\<close>

lemma split_users_id: "split (CHR ''/'') ''users/[id]'' = [''users'', ''[id]'']"
  by simp

lemma path_join_users_id:
  "path_join [''/tmp/x'', ''app'', ''api'', ''users'', ''[id]'', ''route.js'']
     = ''/tmp/x/app/api/users/[id]/route.js''"
  by code_simp

lemma path_dirname_users_id:
  "path_dirname ''/tmp/x/app/api/users/[id]/route.js'' = ''/tmp/x/app/api/users/[id]''"
  by code_simp

lemma basic_users_id_hello:
  "str_includes (basic_getContent (Str ''GET'') (Str ''users/[id]'') (Bool False))
     ''Hello from users/[id]!''"
  by code_simp

lemma basic_users_id_handler:
  "str_includes (basic_getContent (Str ''GET'') (Str ''users/[id]'') (Bool False))
     ''async function GET(request)''"
  by code_simp

text \<open>What the emitter does with a request made of a string route name, a string base
  directory, a boolean flag and an existing template.\<close>

lemma try_generate_wellformed:
  assumes "routeName req = Str rn" and "baseDir (options req) = Str b"
    and "useTypeScript (options req) = Bool ts" and "template (config req) = Some t"
    and "P = path_join ([b, ''app'', ''api''] @ split (CHR ''/'') rn
                 @ [''route.'' @ (if ts then ''ts'' else ''js'')])"
    and "C = getContent t (method_field (config req)) (Str rn) (Bool ts)"
    and "fs1 = fs\<lparr>dirs := dirs fs \<union> set (parent_dirs (path_dirname P))\<rparr>"
  shows "try_generate e req fs =
     (case mkdir_error e (path_dirname P) fs of
        Some code \<Rightarrow> (Inl (SystemError code), fs)
      | None \<Rightarrow>
          (case write_error e P C fs1 of
             Some code \<Rightarrow> (Inl (SystemError code), fs1)
           | None \<Rightarrow> (Inr P, fs1\<lparr>files := (files fs)(P \<mapsto> C)\<rparr>)))"
  using assms
  by (simp add: try_generate_def mkdirSync_def writeFileSync_def Let_def split: option.splits)

lemma generateApiRoute_ok:
  assumes "routeName req = Str rn" and "baseDir (options req) = Str b"
    and "useTypeScript (options req) = Bool ts" and "template (config req) = Some t"
    and "P = path_join ([b, ''app'', ''api''] @ split (CHR ''/'') rn
                 @ [''route.'' @ (if ts then ''ts'' else ''js'')])"
    and "C = getContent t (method_field (config req)) (Str rn) (Bool ts)"
    and "mkdir_error e (path_dirname P) fs = None"
    and "write_error e P C (fs\<lparr>dirs := dirs fs \<union> set (parent_dirs (path_dirname P))\<rparr>) = None"
  shows "generateApiRoute e req fs =
     ([Console_log_generated P],
      fs\<lparr>dirs := dirs fs \<union> set (parent_dirs (path_dirname P)), files := (files fs)(P \<mapsto> C)\<rparr>)"
  using assms(7,8)
  by (simp add: generateApiRoute_def try_generate_wellformed [OF assms(1-6) refl])

text \<open>
  C1. With no file system failure, the emitter run on route name \<^verbatim>\<open>users/[id]\<close>, method
  \<^verbatim>\<open>GET\<close>, template \<^verbatim>\<open>basic\<close>, TypeScript off and base directory \<^verbatim>\<open>/tmp/x\<close> reports
  the path \<^verbatim>\<open>/tmp/x/app/api/users/[id]/route.js\<close> and changes the content of that one
  file and of no other; the new content contains \<^verbatim>\<open>Hello from users/[id]!\<close> and
  \<^verbatim>\<open>async function GET(request)\<close>.
\<close>

theorem emits_users_id_route:
  assumes "mkdir_error e = (\<lambda>p fs. None)"
    and "write_error e = (\<lambda>p c fs. None)"
  shows "\<exists>c fs'.
     generateApiRoute e
       \<lparr>routeName = Str ''users/[id]'',
        config = \<lparr>method_field = Str ''GET'', template = templates ''basic''\<rparr>,
        options = \<lparr>useTypeScript = Bool False, baseDir = Str ''/tmp/x''\<rparr>\<rparr> fs
       = ([Console_log_generated ''/tmp/x/app/api/users/[id]/route.js''], fs')
     \<and> files fs' = (files fs)(''/tmp/x/app/api/users/[id]/route.js'' \<mapsto> c)
     \<and> str_includes c ''Hello from users/[id]!''
     \<and> str_includes c ''async function GET(request)''"
proof -
  let ?req = "\<lparr>routeName = Str ''users/[id]'',
        config = \<lparr>method_field = Str ''GET'', template = templates ''basic''\<rparr>,
        options = \<lparr>useTypeScript = Bool False, baseDir = Str ''/tmp/x''\<rparr>\<rparr>"
  let ?P = "''/tmp/x/app/api/users/[id]/route.js''"
  let ?C = "basic_getContent (Str ''GET'') (Str ''users/[id]'') (Bool False)"
  have P: "?P = path_join ([''/tmp/x'', ''app'', ''api''] @ split (CHR ''/'') ''users/[id]''
                 @ [''route.'' @ (if False then ''ts'' else ''js'')])"
    using path_join_users_id by (simp add: split_users_id)
  have C: "?C = getContent \<lparr>name = ''Basic'', description = ''A simple API route with a JSON response'',
           getContent = basic_getContent\<rparr> (method_field (config ?req)) (Str ''users/[id]'') (Bool False)"
    by simp
  have "generateApiRoute e ?req fs =
     ([Console_log_generated ?P],
      fs\<lparr>dirs := dirs fs \<union> set (parent_dirs (path_dirname ?P)), files := (files fs)(?P \<mapsto> ?C)\<rparr>)"
    by (rule generateApiRoute_ok [OF _ _ _ _ P C]) (simp_all add: assms templates_basic)
  moreover have "files (fs\<lparr>dirs := dirs fs \<union> set (parent_dirs (path_dirname ?P)),
      files := (files fs)(?P \<mapsto> ?C)\<rparr>) = (files fs)(?P \<mapsto> ?C)"
    by simp
  ultimately show ?thesis
    using basic_users_id_hello basic_users_id_handler by blast
qed

theorem emits_users_id_route_witness:
  "\<exists>c fs'.
     generateApiRoute \<lparr>cwd = ''/home'', mkdir_error = (\<lambda>p fs. None), write_error = (\<lambda>p c fs. None)\<rparr>
       \<lparr>routeName = Str ''users/[id]'',
        config = \<lparr>method_field = Str ''GET'', template = templates ''basic''\<rparr>,
        options = \<lparr>useTypeScript = Bool False, baseDir = Str ''/tmp/x''\<rparr>\<rparr>
       \<lparr>files = Map.empty, dirs = {}\<rparr>
       = ([Console_log_generated ''/tmp/x/app/api/users/[id]/route.js''], fs')
     \<and> files fs' = [''/tmp/x/app/api/users/[id]/route.js'' \<mapsto> c]
     \<and> str_includes c ''Hello from users/[id]!''
     \<and> str_includes c ''async function GET(request)''"
  using emits_users_id_route
      [of "\<lparr>cwd = ''/home'', mkdir_error = (\<lambda>p fs. None), write_error = (\<lambda>p c fs. None)\<rparr>"
          "\<lparr>files = Map.empty, dirs = {}\<rparr>"]
  by simp

subsection \<open>Splitting, joining and normalising\<close>

lemma split_not_Nil: "split sep s \<noteq> []"
  by (induction s) (auto split: list.splits)

lemma split_append_sep: "split sep (a @ sep # b) = split sep a @ split sep b"
proof (induction a)
  case Nil
  show ?case by simp
next
  case (Cons c a)
  obtain seg segs where "split sep a = seg # segs"
    using split_not_Nil [of sep a] by (cases "split sep a") auto
  with Cons show ?case by simp
qed

lemma split_no_sep: "sep \<notin> set s \<Longrightarrow> split sep s = [s]"
  by (induction s) auto

lemma join_sep_Cons: "xs \<noteq> [] \<Longrightarrow> join_sep (x # xs) = x @ ''/'' @ join_sep xs"
  by (cases xs) auto

lemma join_sep_append:
  "xs \<noteq> [] \<Longrightarrow> ys \<noteq> [] \<Longrightarrow> join_sep (xs @ ys) = join_sep xs @ ''/'' @ join_sep ys"
proof (induction xs)
  case Nil
  then show ?case by simp
next
  case (Cons x xs)
  show ?case
  proof (cases "xs = []")
    case True
    with Cons.prems show ?thesis by (simp add: join_sep_Cons)
  next
    case False
    with Cons show ?thesis by (simp add: join_sep_Cons)
  qed
qed

lemma join_sep_split: "join_sep (split (CHR ''/'') s) = s"
proof (induction s)
  case Nil
  show ?case by simp
next
  case (Cons c s)
  obtain seg segs where ss: "split (CHR ''/'') s = seg # segs"
    using split_not_Nil [of "CHR ''/''" s] by (cases "split (CHR ''/'') s") auto
  have "join_sep ((c # seg) # segs) = c # join_sep (seg # segs)"
    by (cases segs) auto
  with Cons ss show ?case
    by (simp add: join_sep_Cons)
qed

lemma normalize_segments_append:
  "normalize_segments allow res (xs @ ys)
     = normalize_segments allow (normalize_segments allow res xs) ys"
  by (induction xs arbitrary: res) auto

lemma normalize_segments_plain:
  "\<forall>seg \<in> set ys. seg \<noteq> [] \<and> seg \<noteq> ''.'' \<and> seg \<noteq> ''..''
     \<Longrightarrow> normalize_segments allow res ys = res @ ys"
  by (induction ys arbitrary: res) auto

text \<open>
  Joining resolves \<^verbatim>\<open>..\<close> and drops empty segments, so such segments of a route name
  do not show in the destination.
\<close>

lemma path_join_resolves_dotdot:
  "path_join ([''/tmp/x'', ''app'', ''api''] @ split (CHR ''/'') ''a/../b//c'' @ [''route.js''])
     = ''/tmp/x/app/api/b/c/route.js''"
  by code_simp

text \<open>
  The route part of the destination: when no segment of the route name is empty,
  \<^verbatim>\<open>.\<close> or \<^verbatim>\<open>..\<close>, the joined path ends with the literal text
  \<^verbatim>\<open>app/api/<route name>/<file>\<close>, whatever the base directory.
\<close>

lemma path_join_route_suffix:
  assumes plain: "\<forall>seg \<in> set (split (CHR ''/'') rn). seg \<noteq> [] \<and> seg \<noteq> ''.'' \<and> seg \<noteq> ''..''"
    and fname: "file \<noteq> []" "CHR ''/'' \<notin> set file" "file \<noteq> ''.''" "file \<noteq> ''..''"
  shows "suffix (''app/api/'' @ rn @ ''/'' @ file)
           (path_join ([b, ''app'', ''api''] @ split (CHR ''/'') rn @ [file]))"
proof -
  let ?segs = "split (CHR ''/'') rn"
  let ?tail = "[''app'', ''api''] @ ?segs @ [file]"
  have tail_plain: "\<forall>seg \<in> set ?tail. seg \<noteq> [] \<and> seg \<noteq> ''.'' \<and> seg \<noteq> ''..''"
    using plain fname by auto
  have tail_join: "join_sep ?tail = ''app/api/'' @ rn @ ''/'' @ file"
  proof -
    have "join_sep (?segs @ [file]) = join_sep ?segs @ ''/'' @ join_sep [file]"
      by (rule join_sep_append) (simp_all add: split_not_Nil)
    then have "join_sep (?segs @ [file]) = rn @ ''/'' @ file"
      by (simp add: join_sep_split)
    moreover have "?segs @ [file] \<noteq> []" by simp
    ultimately show ?thesis
      by (simp add: join_sep_Cons)
  qed
  have tail_split: "split (CHR ''/'') (''app/api/'' @ rn @ ''/'' @ file) = ?tail"
  proof -
    have "split (CHR ''/'') (rn @ CHR ''/'' # file) = ?segs @ [file]"
      using fname(2) by (simp add: split_append_sep split_no_sep)
    moreover have "split (CHR ''/'') (''api'' @ CHR ''/'' # (rn @ CHR ''/'' # file))
        = split (CHR ''/'') ''api'' @ split (CHR ''/'') (rn @ CHR ''/'' # file)"
      by (rule split_append_sep)
    moreover have "split (CHR ''/'') (''app'' @ CHR ''/'' # (''api'' @ CHR ''/'' # (rn @ CHR ''/'' # file)))
        = split (CHR ''/'') ''app'' @ split (CHR ''/'') (''api'' @ CHR ''/'' # (rn @ CHR ''/'' # file))"
      by (rule split_append_sep)
    ultimately show ?thesis by simp
  qed
  have filt: "filter (\<lambda>arg. arg \<noteq> []) ([b, ''app'', ''api''] @ ?segs @ [file])
      = (if b = [] then [] else [b]) @ ?tail"
    using plain fname(1) by (auto simp: filter_id_conv)
  have last_tail: "last (''app/api/'' @ rn @ ''/'' @ file) \<noteq> CHR ''/''"
    using fname(1,2) by (metis append_assoc last_appendR last_in_set)
  show ?thesis
  proof (cases "b = []")
    case True
    have "normalizeString (''app/api/'' @ rn @ ''/'' @ file) True = ''app/api/'' @ rn @ ''/'' @ file"
      unfolding normalizeString_def tail_split
      using normalize_segments_plain [OF tail_plain, of True "[]"] tail_join by simp
    then have "path_normalize (''app/api/'' @ rn @ ''/'' @ file) = ''app/api/'' @ rn @ ''/'' @ file"
      using last_tail by (simp add: path_normalize_def Let_def)
    with True filt tail_join show ?thesis
      by (simp add: path_join_def Let_def)
  next
    case False
    let ?J = "b @ CHR ''/'' # (''app/api/'' @ rn @ ''/'' @ file)"
    let ?abs = "hd b = CHR ''/''"
    let ?R0 = "normalize_segments (\<not> ?abs) [] (split (CHR ''/'') b)"
    have J: "join_sep ([b] @ ?tail) = ?J"
      using tail_join by (simp add: join_sep_Cons)
    have "split (CHR ''/'') ?J = split (CHR ''/'') b @ ?tail"
      using tail_split split_append_sep [of "CHR ''/''" b "''app/api/'' @ rn @ ''/'' @ file"]
      by simp
    then have segs: "normalize_segments (\<not> ?abs) [] (split (CHR ''/'') ?J) = ?R0 @ ?tail"
      using normalize_segments_plain [OF tail_plain, of "\<not> ?abs" ?R0]
      by (simp add: normalize_segments_append)
    have "join_sep (?R0 @ ?tail)
        = (if ?R0 = [] then [] else join_sep ?R0 @ ''/'') @ (''app/api/'' @ rn @ ''/'' @ file)"
      using join_sep_append [of ?R0 ?tail] tail_join by (cases "?R0 = []") auto
    with segs have ns: "normalizeString ?J (\<not> ?abs)
        = (if ?R0 = [] then [] else join_sep ?R0 @ ''/'') @ (''app/api/'' @ rn @ ''/'' @ file)"
      by (simp add: normalizeString_def)
    have hdJ: "hd ?J = hd b" using False by (cases b) auto
    have lastJ: "last ?J \<noteq> CHR ''/''"
      using last_tail by simp
    have "path_normalize ?J
        = (if ?abs then ''/'' else []) @ (if ?R0 = [] then [] else join_sep ?R0 @ ''/'')
            @ (''app/api/'' @ rn @ ''/'' @ file)"
      using ns hdJ lastJ by (simp add: path_normalize_def Let_def)
    then have "suffix (''app/api/'' @ rn @ ''/'' @ file) (path_normalize ?J)"
      by (metis append_assoc suffixI)
    with False filt J show ?thesis
      by (simp add: path_join_def Let_def)
  qed
qed

text \<open>
  C2. For every route name, base directory and TypeScript flag, a run without file
  system failure reports and writes the path obtained by joining the base directory,
  \<^verbatim>\<open>app\<close>, \<^verbatim>\<open>api\<close>, the segments of the route name split at \<^verbatim>\<open>/\<close>, and \<^verbatim>\<open>route.ts\<close> or
  \<^verbatim>\<open>route.js\<close> according to the flag. Segments are not interpreted: unless one is
  empty, \<^verbatim>\<open>.\<close> or \<^verbatim>\<open>..\<close> (which joining paths removes or resolves), the path ends with
  \<^verbatim>\<open>app/api/\<close>, the route name as it was given, and the file name.
\<close>

theorem destination_path:
  assumes "routeName req = Str rn" and "baseDir (options req) = Str b"
    and "useTypeScript (options req) = Bool ts" and "template (config req) = Some t"
    and "mkdir_error e = (\<lambda>p fs. None)" and "write_error e = (\<lambda>p c fs. None)"
  shows "\<exists>P fs'.
      generateApiRoute e req fs = ([Console_log_generated P], fs')
    \<and> P = path_join ([b, ''app'', ''api''] @ split (CHR ''/'') rn
                 @ [''route.'' @ (if ts then ''ts'' else ''js'')])
    \<and> files fs' = (files fs)(P \<mapsto> getContent t (method_field (config req)) (Str rn) (Bool ts))
    \<and> ((\<forall>seg \<in> set (split (CHR ''/'') rn). seg \<noteq> [] \<and> seg \<noteq> ''.'' \<and> seg \<noteq> ''..'')
          \<longrightarrow> suffix (''app/api/'' @ rn @ ''/route.'' @ (if ts then ''ts'' else ''js'')) P)"
proof -
  let ?file = "''route.'' @ (if ts then ''ts'' else ''js'')"
  let ?P = "path_join ([b, ''app'', ''api''] @ split (CHR ''/'') rn @ [?file])"
  let ?C = "getContent t (method_field (config req)) (Str rn) (Bool ts)"
  have run: "generateApiRoute e req fs =
     ([Console_log_generated ?P],
      fs\<lparr>dirs := dirs fs \<union> set (parent_dirs (path_dirname ?P)), files := (files fs)(?P \<mapsto> ?C)\<rparr>)"
    by (rule generateApiRoute_ok [OF assms(1-4) refl refl]) (simp_all add: assms(5,6))
  have verbatim: "suffix (''app/api/'' @ rn @ ''/route.'' @ (if ts then ''ts'' else ''js'')) ?P"
    if "\<forall>seg \<in> set (split (CHR ''/'') rn). seg \<noteq> [] \<and> seg \<noteq> ''.'' \<and> seg \<noteq> ''..''"
    using path_join_route_suffix [OF that, of ?file b] by simp
  show ?thesis
    using run verbatim by (intro exI conjI) (assumption, simp_all)
qed

theorem destination_path_witness:
  "\<exists>fs'.
      generateApiRoute \<lparr>cwd = ''/home'', mkdir_error = (\<lambda>p fs. None), write_error = (\<lambda>p c fs. None)\<rparr>
        \<lparr>routeName = Str ''users/[id]'',
         config = \<lparr>method_field = Str ''POST'',
                    template = Some \<lparr>name = ''Basic'',
                      description = ''A simple API route with a JSON response'',
                      getContent = basic_getContent\<rparr>\<rparr>,
         options = \<lparr>useTypeScript = Bool True, baseDir = Str ''/tmp/x''\<rparr>\<rparr>
        \<lparr>files = Map.empty, dirs = {}\<rparr>
        = ([Console_log_generated ''/tmp/x/app/api/users/[id]/route.ts''], fs')
    \<and> files fs' = [''/tmp/x/app/api/users/[id]/route.ts'' \<mapsto>
          basic_getContent (Str ''POST'') (Str ''users/[id]'') (Bool True)]
    \<and> suffix ''app/api/users/[id]/route.ts'' ''/tmp/x/app/api/users/[id]/route.ts''"
proof -
  have P: "path_join [''/tmp/x'', ''app'', ''api'', ''users'', ''[id]'', ''route.ts'']
             = ''/tmp/x/app/api/users/[id]/route.ts''"
    by code_simp
  show ?thesis
    using destination_path
      [of "\<lparr>routeName = Str ''users/[id]'',
         config = \<lparr>method_field = Str ''POST'',
                    template = Some \<lparr>name = ''Basic'',
                      description = ''A simple API route with a JSON response'',
                      getContent = basic_getContent\<rparr>\<rparr>,
         options = \<lparr>useTypeScript = Bool True, baseDir = Str ''/tmp/x''\<rparr>\<rparr>"
        "''users/[id]''" "''/tmp/x''" True
        "\<lparr>name = ''Basic'', description = ''A simple API route with a JSON response'',
          getContent = basic_getContent\<rparr>"
        "\<lparr>cwd = ''/home'', mkdir_error = (\<lambda>p fs. None), write_error = (\<lambda>p c fs. None)\<rparr>"
        "\<lparr>files = Map.empty, dirs = {}\<rparr>"]
    by (simp add: split_users_id P)
qed

text \<open>
  A run of the emitter either fails on the shape of the request, whatever the file
  system, or has a path and a content fixed by the request alone.
\<close>

lemma try_generate_shape:
  obtains (type_error) "\<And>f. try_generate e req f = (Inl TypeError, f)"
  | (planned) t C P where "template (config req) = Some t"
      and "C = getContent t (method_field (config req)) (routeName req)
                 (case useTypeScript (options req) of
                    Undefined \<Rightarrow> useTypeScript (defaultConfig e) | v \<Rightarrow> v)"
      and "\<And>f. try_generate e req f =
             (case mkdir_error e (path_dirname P) f of
                Some code \<Rightarrow> (Inl (SystemError code), f)
              | None \<Rightarrow>
                  (case write_error e P C
                          (f\<lparr>dirs := dirs f \<union> set (parent_dirs (path_dirname P))\<rparr>) of
                     Some code \<Rightarrow>
                       (Inl (SystemError code),
                        f\<lparr>dirs := dirs f \<union> set (parent_dirs (path_dirname P))\<rparr>)
                   | None \<Rightarrow>
                       (Inr P,
                        f\<lparr>dirs := dirs f \<union> set (parent_dirs (path_dirname P)),
                          files := (files f)(P \<mapsto> C)\<rparr>)))"
proof -
  let ?useTS = "case useTypeScript (options req) of
                  Undefined \<Rightarrow> useTypeScript (defaultConfig e) | v \<Rightarrow> v"
  let ?base = "case baseDir (options req) of
                 Undefined \<Rightarrow> baseDir (defaultConfig e) | v \<Rightarrow> v"
  show thesis
  proof (cases "routeName req")
    case Undefined
    then have "try_generate e req f = (Inl TypeError, f)" for f
      by (simp add: try_generate_def Let_def)
    then show thesis by (rule type_error)
  next
    case (Bool x)
    then have "try_generate e req f = (Inl TypeError, f)" for f
      by (simp add: try_generate_def Let_def)
    then show thesis by (rule type_error)
  next
    case rn: (Str rn)
    show thesis
    proof (cases ?base)
      case Undefined
      with rn have "try_generate e req f = (Inl TypeError, f)" for f
        by (simp add: try_generate_def Let_def)
      then show thesis by (rule type_error)
    next
      case (Bool x)
      with rn have "try_generate e req f = (Inl TypeError, f)" for f
        by (simp add: try_generate_def Let_def)
      then show thesis by (rule type_error)
    next
      case b: (Str b)
      show thesis
      proof (cases "template (config req)")
        case None
        with rn b have "try_generate e req f = (Inl TypeError, f)" for f
          by (simp add: try_generate_def Let_def)
        then show thesis by (rule type_error)
      next
        case (Some t)
        let ?P = "path_join ([b, ''app'', ''api''] @ split (CHR ''/'') rn
                    @ [''route.'' @ (if truthy ?useTS then ''ts'' else ''js'')])"
        let ?C = "getContent t (method_field (config req)) (routeName req) ?useTS"
        have "try_generate e req f =
             (case mkdir_error e (path_dirname ?P) f of
                Some code \<Rightarrow> (Inl (SystemError code), f)
              | None \<Rightarrow>
                  (case write_error e ?P ?C
                          (f\<lparr>dirs := dirs f \<union> set (parent_dirs (path_dirname ?P))\<rparr>) of
                     Some code \<Rightarrow>
                       (Inl (SystemError code),
                        f\<lparr>dirs := dirs f \<union> set (parent_dirs (path_dirname ?P))\<rparr>)
                   | None \<Rightarrow>
                       (Inr ?P,
                        f\<lparr>dirs := dirs f \<union> set (parent_dirs (path_dirname ?P)),
                          files := (files f)(?P \<mapsto> ?C)\<rparr>)))" for f
          using rn b Some
          by (simp add: try_generate_def Let_def mkdirSync_def writeFileSync_def
              split: option.splits)
        then show thesis
          by (rule planned [OF Some refl])
      qed
    qed
  qed
qed

text \<open>
  C9. Emission is deterministic and idempotent. In an environment whose verdict on a
  file system call does not depend on what an earlier run has written, a second run
  of the same request reports what the first reported and leaves the file system as
  the first left it; when the run succeeds the file holds the rendered text of the
  request and nothing else, whatever the file held before.
\<close>

theorem emission_idempotent:
  assumes "\<And>p f f'. mkdir_error e p f = mkdir_error e p f'"
    and "\<And>p c f f'. write_error e p c f = write_error e p c f'"
  shows "generateApiRoute e req (snd (generateApiRoute e req fs)) =
           (fst (generateApiRoute e req fs), snd (generateApiRoute e req fs))
       \<and> (\<forall>P. fst (generateApiRoute e req fs) = [Console_log_generated P] \<longrightarrow>
             (\<exists>t. template (config req) = Some t
                \<and> files (snd (generateApiRoute e req fs)) P =
                    Some (getContent t (method_field (config req)) (routeName req)
                      (case useTypeScript (options req) of
                         Undefined \<Rightarrow> useTypeScript (defaultConfig e) | v \<Rightarrow> v))))"
proof (cases rule: try_generate_shape [of e req])
  case type_error
  then have "generateApiRoute e req f = ([Console_error_generating (routeName req) TypeError], f)"
    for f
    by (simp add: generateApiRoute_def)
  then show ?thesis
    by simp
next
  case (planned t C P)
  let ?D = "path_dirname P"
  let ?fs1 = "fs\<lparr>dirs := dirs fs \<union> set (parent_dirs ?D)\<rparr>"
  let ?fs2 = "fs\<lparr>dirs := dirs fs \<union> set (parent_dirs ?D), files := (files fs)(P \<mapsto> C)\<rparr>"
  show ?thesis
  proof (cases "mkdir_error e ?D fs")
    case (Some code)
    with planned(3) [of fs]
    have "generateApiRoute e req fs =
            ([Console_error_generating (routeName req) (SystemError code)], fs)"
      by (simp add: generateApiRoute_def)
    then show ?thesis
      by simp
  next
    case None
    have mk: "mkdir_error e ?D f = None" for f
      using None assms(1) [of ?D f fs] by simp
    show ?thesis
    proof (cases "write_error e P C ?fs1")
      case (Some code)
      have wr: "write_error e P C f = Some code" for f
        using Some assms(2) [of P C f ?fs1] by simp
      have run: "generateApiRoute e req f =
            ([Console_error_generating (routeName req) (SystemError code)],
             f\<lparr>dirs := dirs f \<union> set (parent_dirs ?D)\<rparr>)" for f
        using planned(3) [of f] by (simp add: generateApiRoute_def mk wr)
      show ?thesis
        by (simp add: run)
    next
      case no_write_error: None
      have wr: "write_error e P C f = None" for f
        using no_write_error assms(2) [of P C f ?fs1] by simp
      have run: "generateApiRoute e req f =
            ([Console_log_generated P],
             f\<lparr>dirs := dirs f \<union> set (parent_dirs ?D), files := (files f)(P \<mapsto> C)\<rparr>)" for f
        using planned(3) [of f] by (simp add: generateApiRoute_def mk wr)
      show ?thesis
        using planned(1,2) by (simp add: run)
    qed
  qed
qed

theorem emission_idempotent_witness:
  "generateApiRoute \<lparr>cwd = ''/home'', mkdir_error = (\<lambda>p fs. None), write_error = (\<lambda>p c fs. None)\<rparr>
      \<lparr>routeName = Str ''users/[id]'',
       config = \<lparr>method_field = Str ''GET'', template = templates ''basic''\<rparr>,
       options = \<lparr>useTypeScript = Bool False, baseDir = Str ''/tmp/x''\<rparr>\<rparr>
      (snd (generateApiRoute
        \<lparr>cwd = ''/home'', mkdir_error = (\<lambda>p fs. None), write_error = (\<lambda>p c fs. None)\<rparr>
        \<lparr>routeName = Str ''users/[id]'',
         config = \<lparr>method_field = Str ''GET'', template = templates ''basic''\<rparr>,
         options = \<lparr>useTypeScript = Bool False, baseDir = Str ''/tmp/x''\<rparr>\<rparr>
        \<lparr>files = [''/tmp/x/app/api/users/[id]/route.js'' \<mapsto> ''old''], dirs = {}\<rparr>))
   = ([Console_log_generated ''/tmp/x/app/api/users/[id]/route.js''],
      \<lparr>files = [''/tmp/x/app/api/users/[id]/route.js'' \<mapsto>
                  basic_getContent (Str ''GET'') (Str ''users/[id]'') (Bool False)],
       dirs = set (parent_dirs ''/tmp/x/app/api/users/[id]'')\<rparr>)"
proof -
  let ?e = "\<lparr>cwd = ''/home'', mkdir_error = (\<lambda>p fs. None), write_error = (\<lambda>p c fs. None)\<rparr>"
  let ?req = "\<lparr>routeName = Str ''users/[id]'',
       config = \<lparr>method_field = Str ''GET'', template = templates ''basic''\<rparr>,
       options = \<lparr>useTypeScript = Bool False, baseDir = Str ''/tmp/x''\<rparr>\<rparr>"
  let ?fs = "\<lparr>files = [''/tmp/x/app/api/users/[id]/route.js'' \<mapsto> ''old''], dirs = {}\<rparr>"
  have first: "generateApiRoute ?e ?req ?fs =
      ([Console_log_generated ''/tmp/x/app/api/users/[id]/route.js''],
       \<lparr>files = [''/tmp/x/app/api/users/[id]/route.js'' \<mapsto>
                  basic_getContent (Str ''GET'') (Str ''users/[id]'') (Bool False)],
        dirs = set (parent_dirs ''/tmp/x/app/api/users/[id]'')\<rparr>)"
    by (simp add: generateApiRoute_def try_generate_def mkdirSync_def writeFileSync_def
        templates_basic path_join_users_id path_dirname_users_id Let_def)
  have "generateApiRoute ?e ?req (snd (generateApiRoute ?e ?req ?fs)) =
           (fst (generateApiRoute ?e ?req ?fs), snd (generateApiRoute ?e ?req ?fs))"
    using emission_idempotent [of ?e ?req ?fs] by simp
  then show ?thesis
    unfolding first by simp
qed

section \<open>Properties of the wizard\<close>

declare main_loop.simps [simp del]

lemma answer_key_simps:
  "answer_key Route_Name = ''routename''"
  "answer_key HTTP_Method = ''httpmethod''"
  "answer_key Template = ''template''"
  "answer_key TypeScript = ''typescript''"
  "answer_key Base_Directory = ''basedirectory''"
  by code_simp+

lemma steps_nth:
  "steps ! 0 = Route_Name" "steps ! Suc 0 = HTTP_Method" "steps ! 2 = Template"
  "steps ! 3 = TypeScript" "steps ! 4 = Base_Directory" "length steps = 5"
  by (simp_all add: steps_def numeral_2_eq_2 numeral_3_eq_3 eval_nat_numeral)

lemma trim_spaces: "trim ''   '' = []"
  by code_simp

lemma handle_answer_back:
  "handle_answer w (Str ''back'') = w\<lparr>currentStep := currentStep w - 1\<rparr>"
  by (simp add: handle_answer_def)

lemma handle_answer_store:
  "answer \<noteq> Str ''back'' \<Longrightarrow>
     handle_answer w answer =
       w\<lparr>answers := (answers w)(answer_key (steps ! currentStep w) := answer),
         currentStep := currentStep w + 1\<rparr>"
  by (simp add: handle_answer_def)

text \<open>
  C8. The validator of the route name prompt returns a non-empty message exactly for
  the values whose trimmed form is empty, the three-space string among them, and
  accepts every other value. While the wizard is at the route name step, a value
  the validator refuses only adds the message to the output: the wizard goes on
  from the same answers and the same cursor.
\<close>

theorem route_name_validation:
  "(trim v = [] \<longrightarrow>
      validate_route_name v = Some ''Route name cannot be empty''
      \<and> (currentStep w = 0 \<longrightarrow>
           await_answer e w (Typed v # ins) =
             emit [Validation_error ''Route name cannot be empty''] (await_answer e w ins)))
   \<and> (trim v \<noteq> [] \<longrightarrow> validate_route_name v = None)
   \<and> trim ''   '' = []"
  by (simp add: validate_route_name_def steps_nth trim_spaces)

theorem route_name_validation_witness:
  "validate_route_name ''   '' = Some ''Route name cannot be empty''
   \<and> await_answer \<lparr>cwd = ''/home'', mkdir_error = (\<lambda>p fs. None), write_error = (\<lambda>p c fs. None)\<rparr>
       \<lparr>answers = (\<lambda>k. Undefined), currentStep = 0\<rparr> [Typed ''   '']
       = ([Validation_error ''Route name cannot be empty''],
          Pending \<lparr>answers = (\<lambda>k. Undefined), currentStep = 0\<rparr>)
   \<and> validate_route_name ''users/[id]'' = None"
proof -
  let ?e = "\<lparr>cwd = ''/home'', mkdir_error = (\<lambda>p fs. None), write_error = (\<lambda>p c fs. None)\<rparr>"
  let ?w = "\<lparr>answers = (\<lambda>k. Undefined), currentStep = 0\<rparr>"
  have "trim ''users/[id]'' \<noteq> []"
    by code_simp
  then show ?thesis
    using route_name_validation [of "''   ''" ?w ?e "[]"]
      route_name_validation [of "''users/[id]''" ?w ?e "[]"]
    by (simp add: trim_spaces)
qed

text \<open>
  C7. A \<^verbatim>\<open>back\<close> answer moves the cursor down by one, or leaves it at 0, and leaves
  every stored answer as it was. In particular, at the template step, going back and
  choosing an HTTP method again brings the wizard back to the template step with the
  method stored and the route name answer untouched.
\<close>

theorem go_back_keeps_answers:
  "currentStep (handle_answer w (Str ''back'')) = (if currentStep w = 0 then 0 else currentStep w - 1)
   \<and> answers (handle_answer w (Str ''back'')) = answers w
   \<and> (currentStep w = 2 \<and> m \<in> set HttpMethod \<longrightarrow>
        (\<exists>w' outs.
           await_answer e w (Picked ''back'' # Picked m # ins) = emit outs (main_loop e w' ins)
           \<and> currentStep w' = 2
           \<and> answers w' = (answers w)(''httpmethod'' := Str m)
           \<and> answers w' ''routename'' = answers w ''routename''))"
proof -
  have "\<exists>w' outs.
           await_answer e w (Picked ''back'' # Picked m # ins) = emit outs (main_loop e w' ins)
           \<and> currentStep w' = 2
           \<and> answers w' = (answers w)(''httpmethod'' := Str m)
           \<and> answers w' ''routename'' = answers w ''routename''"
    if at: "currentStep w = 2" and m: "m \<in> set HttpMethod"
  proof -
    let ?w1 = "w\<lparr>currentStep := Suc 0\<rparr>"
    let ?w2 = "w\<lparr>answers := (answers w)(''httpmethod'' := Str m), currentStep := 2\<rparr>"
    let ?outs = "[P_log_step 2 (step_name HTTP_Method),
                  show_prompt (prompt_for e (answers w) HTTP_Method)]"
    have m_back: "m \<noteq> ''back''"
      using m by (auto simp: HttpMethod_def)
    have "await_answer e w (Picked ''back'' # Picked m # ins) = main_loop e ?w1 (Picked m # ins)"
      using at by (simp add: steps_nth templates_entries_def handle_answer_back)
    also have "\<dots> = emit ?outs (await_answer e ?w1 (Picked m # ins))"
      by (subst main_loop.simps) (simp add: steps_nth numeral_2_eq_2 del: await_answer.simps)
    also have "await_answer e ?w1 (Picked m # ins) = main_loop e ?w2 ins"
      using m m_back
      by (simp add: steps_nth handle_answer_store answer_key_simps numeral_2_eq_2)
    finally show ?thesis
      by (intro exI [of _ ?w2] exI [of _ ?outs]) simp
  qed
  then show ?thesis
    by (auto simp: handle_answer_back)
qed

theorem go_back_keeps_answers_witness:
  "\<exists>w' outs.
     await_answer \<lparr>cwd = ''/home'', mkdir_error = (\<lambda>p fs. None), write_error = (\<lambda>p c fs. None)\<rparr>
         \<lparr>answers = (\<lambda>k. Undefined)(''routename'' := Str ''users/[id]'',
                         ''httpmethod'' := Str ''GET''), currentStep = 2\<rparr>
         [Picked ''back'', Picked ''POST'']
       = emit outs (main_loop \<lparr>cwd = ''/home'', mkdir_error = (\<lambda>p fs. None), write_error = (\<lambda>p c fs. None)\<rparr> w' [])
     \<and> currentStep w' = 2
     \<and> answers w' ''httpmethod'' = Str ''POST''
     \<and> answers w' ''routename'' = Str ''users/[id]''"
proof -
  let ?e = "\<lparr>cwd = ''/home'', mkdir_error = (\<lambda>p fs. None), write_error = (\<lambda>p c fs. None)\<rparr>"
  let ?w = "\<lparr>answers = (\<lambda>k. Undefined)(''routename'' := Str ''users/[id]'',
                         ''httpmethod'' := Str ''GET''), currentStep = 2\<rparr>"
  have "''POST'' \<in> set HttpMethod"
    by (simp add: HttpMethod_def)
  then obtain w' outs where
    "await_answer ?e ?w [Picked ''back'', Picked ''POST''] = emit outs (main_loop ?e w' [])"
    "currentStep w' = 2" "answers w' = (answers ?w)(''httpmethod'' := Str ''POST'')"
    using go_back_keeps_answers [of ?w "''POST''" ?e "[]"] by auto
  then show ?thesis
    by (intro exI [of _ w'] exI [of _ outs]) simp
qed

subsection \<open>Runs of the loop\<close>

lemma emit_emit: "emit os (emit os' x) = emit (os @ os') x"
  by (cases x) simp

lemma fst_emit: "fst (emit os x) = os @ fst x"
  by (cases x) simp

lemma snd_emit: "snd (emit os x) = snd x"
  by (cases x) simp

lemma emit_fst_snd: "emit os x = (os @ fst x, snd x)"
  by (cases x) simp

text \<open>A run that stops at an open prompt goes on from there when further input comes.\<close>

lemma loop_resumes:
  "snd (main_loop e w pre) = Pending w' \<Longrightarrow>
     main_loop e w (pre @ later) = emit (fst (main_loop e w pre)) (await_answer e w' later)"
  "snd (await_answer e w pre) = Pending w' \<Longrightarrow>
     await_answer e w (pre @ later) = emit (fst (await_answer e w pre)) (await_answer e w' later)"
proof (induction e w pre and e w pre rule: main_loop_await_answer.induct)
  case (1 e w ins)
  show ?case
  proof (cases "currentStep w < length steps")
    case True
    with "1.prems" have "snd (await_answer e w ins) = Pending w'"
      by (simp add: main_loop.simps snd_emit)
    from "1.IH" [OF True this] True show ?thesis
      by (simp add: main_loop.simps [of e w] emit_emit fst_emit)
  next
    case False
    with "1.prems" show ?thesis
      by (simp add: main_loop.simps)
  qed
next
  case (2 e w)
  then show ?case
    by (simp add: emit_fst_snd)
next
  case (3 e w i ins)
  show ?case
  proof (cases "react (prompt_for e (answers w) (steps ! currentStep w)) i")
    case (Resolved answer)
    with "3.prems" "3.IH"(1) [OF Resolved] show ?thesis by simp
  next
    case Cancel_symbol
    with "3.prems" show ?thesis by simp
  next
    case (Rejected problem)
    with "3.prems" "3.IH"(2) [OF Rejected] show ?thesis
      by (simp add: snd_emit fst_emit emit_emit)
  next
    case Ignored
    with "3.prems" "3.IH"(3) [OF Ignored] show ?thesis by simp
  qed
qed

lemma pending_below_last:
  "snd (main_loop e w ins) = Pending w' \<Longrightarrow> currentStep w' < length steps"
  "snd (await_answer e w ins) = Pending w' \<Longrightarrow> currentStep w < length steps
     \<Longrightarrow> currentStep w' < length steps"
proof (induction e w ins and e w ins rule: main_loop_await_answer.induct)
  case (1 e w ins)
  then show ?case
    by (cases "currentStep w < length steps") (simp_all add: main_loop.simps snd_emit)
next
  case (2 e w)
  then show ?case by simp
next
  case (3 e w i ins)
  then show ?case
    by (cases "react (prompt_for e (answers w) (steps ! currentStep w)) i")
      (simp_all add: snd_emit)
qed

lemma loop_outputs:
  "list_all wizard_output (fst (main_loop e w ins))"
  "list_all wizard_output (fst (await_answer e w ins))"
proof (induction e w ins and e w ins rule: main_loop_await_answer.induct)
  case (1 e w ins)
  have "wizard_output (show_prompt pr)" for pr
    by (cases pr) simp_all
  with 1 show ?case
    by (cases "currentStep w < length steps") (simp_all add: main_loop.simps [of e w] fst_emit)
next
  case (2 e w)
  show ?case by simp
next
  case (3 e w i ins)
  then show ?case
    by (cases "react (prompt_for e (answers w) (steps ! currentStep w)) i")
      (simp_all add: fst_emit)
qed

text \<open>
  C6. Whatever the user has entered before, when a prompt of the wizard is open (the
  cursor is at one of the five steps) and the user cancels, the program ends at once
  with exit status 0; its last output is the cancellation notice, nothing in its
  output comes from the emitter, and the file system is as it was.
\<close>

theorem cancel_exits_without_writing:
  assumes "snd (main_loop e initial_wizard pre) = Pending w"
  shows "main e (pre @ Ctrl_C # rest) fs =
           (boot_output @ fst (main_loop e initial_wizard pre) @ [P_cancel ''Operation cancelled.''],
            Exited 0, fs)
       \<and> currentStep w < 5
       \<and> list_all wizard_output (fst (main_loop e initial_wizard pre) @ [P_cancel ''Operation cancelled.''])"
proof -
  have "main_loop e initial_wizard (pre @ Ctrl_C # rest) =
      (fst (main_loop e initial_wizard pre) @ [P_cancel ''Operation cancelled.''], Cancelled)"
    using loop_resumes(1) [OF assms, of "Ctrl_C # rest"] by simp
  then have "main e (pre @ Ctrl_C # rest) fs =
           (boot_output @ fst (main_loop e initial_wizard pre) @ [P_cancel ''Operation cancelled.''],
            Exited 0, fs)"
    by (simp add: main_def)
  moreover have "currentStep w < 5"
    using pending_below_last(1) [OF assms] by (simp add: steps_nth)
  ultimately show ?thesis
    using loop_outputs(1) [of e initial_wizard pre] by simp
qed

lemma trim_a: "trim ''a'' \<noteq> []"
  by code_simp

theorem cancel_exits_without_writing_witness:
  "snd (main \<lparr>cwd = ''/home'', mkdir_error = (\<lambda>p fs. None), write_error = (\<lambda>p c fs. None)\<rparr>
          ([] @ [Ctrl_C]) \<lparr>files = Map.empty, dirs = {}\<rparr>)
     = (Exited 0, \<lparr>files = Map.empty, dirs = {}\<rparr>)
   \<and> snd (main \<lparr>cwd = ''/home'', mkdir_error = (\<lambda>p fs. None), write_error = (\<lambda>p c fs. None)\<rparr>
          ([Typed ''a''] @ [Ctrl_C]) \<lparr>files = Map.empty, dirs = {}\<rparr>)
     = (Exited 0, \<lparr>files = Map.empty, dirs = {}\<rparr>)
   \<and> snd (main \<lparr>cwd = ''/home'', mkdir_error = (\<lambda>p fs. None), write_error = (\<lambda>p c fs. None)\<rparr>
          ([Typed ''a'', Picked ''GET''] @ [Ctrl_C]) \<lparr>files = Map.empty, dirs = {}\<rparr>)
     = (Exited 0, \<lparr>files = Map.empty, dirs = {}\<rparr>)
   \<and> snd (main \<lparr>cwd = ''/home'', mkdir_error = (\<lambda>p fs. None), write_error = (\<lambda>p c fs. None)\<rparr>
          ([Typed ''a'', Picked ''GET'', Picked ''basic''] @ [Ctrl_C])
          \<lparr>files = Map.empty, dirs = {}\<rparr>)
     = (Exited 0, \<lparr>files = Map.empty, dirs = {}\<rparr>)
   \<and> snd (main \<lparr>cwd = ''/home'', mkdir_error = (\<lambda>p fs. None), write_error = (\<lambda>p c fs. None)\<rparr>
          ([Typed ''a'', Picked ''GET'', Picked ''basic'', Answered True] @ [Ctrl_C])
          \<lparr>files = Map.empty, dirs = {}\<rparr>)
     = (Exited 0, \<lparr>files = Map.empty, dirs = {}\<rparr>)"
proof -
  let ?e = "\<lparr>cwd = ''/home'', mkdir_error = (\<lambda>p fs. None), write_error = (\<lambda>p c fs. None)\<rparr>"
  let ?fs = "\<lparr>files = Map.empty, dirs = {}\<rparr>"
  have cancel: "snd (main ?e (pre @ [Ctrl_C]) ?fs) = (Exited 0, ?fs)"
    if "\<exists>w. snd (main_loop ?e initial_wizard pre) = Pending w" for pre
  proof -
    from that obtain w where "snd (main_loop ?e initial_wizard pre) = Pending w" ..
    from cancel_exits_without_writing [OF this, of "[]" ?fs] show ?thesis
      by simp
  qed
  have "\<exists>w. snd (main_loop ?e initial_wizard []) = Pending w"
    by (simp add: main_loop.simps initial_wizard_def steps_def snd_emit)
  moreover have "\<exists>w. snd (main_loop ?e initial_wizard [Typed ''a'']) = Pending w"
    by (simp add: main_loop.simps initial_wizard_def steps_def snd_emit handle_answer_def
        validate_route_name_def trim_a)
  moreover have "\<exists>w. snd (main_loop ?e initial_wizard [Typed ''a'', Picked ''GET'']) = Pending w"
    by (simp add: main_loop.simps initial_wizard_def steps_def snd_emit handle_answer_def
        validate_route_name_def trim_a HttpMethod_def)
  moreover have "\<exists>w. snd (main_loop ?e initial_wizard
      [Typed ''a'', Picked ''GET'', Picked ''basic'']) = Pending w"
    by (simp add: main_loop.simps initial_wizard_def steps_def snd_emit handle_answer_def
        validate_route_name_def trim_a HttpMethod_def templates_entries_def)
  moreover have "\<exists>w. snd (main_loop ?e initial_wizard
      [Typed ''a'', Picked ''GET'', Picked ''basic'', Answered True]) = Pending w"
    by (simp add: main_loop.simps initial_wizard_def steps_def snd_emit handle_answer_def
        validate_route_name_def trim_a HttpMethod_def templates_entries_def)
  ultimately show ?thesis
    by (intro conjI cancel)
qed

subsection \<open>The answers of a completed wizard\<close>

lemma answered_below_Suc:
  "answered_below (Suc n) a =
     (answered_below n a \<and> step_answer_ok (steps ! n) (a (answer_key (steps ! n))))"
  by (auto simp: answered_below_def less_Suc_eq)

lemma answered_below_0: "answered_below 0 a"
  by (simp add: answered_below_def)

lemma answered_below_mono: "answered_below n a \<Longrightarrow> m \<le> n \<Longrightarrow> answered_below m a"
  by (simp add: answered_below_def)

lemma trim_back: "trim ''back'' \<noteq> []"
  by code_simp

lemma steps_nth_Suc:
  "steps ! Suc (Suc 0) = Template" "steps ! Suc (Suc (Suc 0)) = TypeScript"
  "steps ! Suc (Suc (Suc (Suc 0))) = Base_Directory"
  by (simp_all add: steps_def)

lemma template_choice_values:
  "map fst (map (\<lambda>(key, t). (key, name t @ '' - '' @ description t)) templates_entries
              @ [(''back'', ''Go back'')])
     = map fst templates_entries @ [''back'']"
  by (simp add: templates_entries_def)

lemma react_select:
  "react (Select_prompt message choices initialValue) i = Resolved v
     \<Longrightarrow> \<exists>x. v = Str x \<and> x \<in> set (map fst choices)"
  by (cases i) (auto split: if_splits)

lemma resolved_answer_ok:
  assumes "react (prompt_for e a s) i = Resolved v" and "v \<noteq> Str ''back''"
  shows "step_answer_ok s v"
proof (cases s)
  case Route_Name
  with assms show ?thesis
    by (cases i) (auto simp: validate_route_name_def split: if_splits)
next
  case HTTP_Method
  with assms show ?thesis
    by (cases i) (auto split: if_splits)
next
  case Template
  with assms(1) have "\<exists>x. v = Str x \<and> x \<in> set (map fst
      (map (\<lambda>(key, t). (key, name t @ '' - '' @ description t)) templates_entries
              @ [(''back'', ''Go back'')]))"
    unfolding prompt_for.simps by (intro react_select) simp
  then obtain x where "v = Str x" "x \<in> set (map fst templates_entries @ [''back''])"
    unfolding template_choice_values by blast
  with assms(2) Template show ?thesis
    by auto
next
  case TypeScript
  with assms show ?thesis
    by (cases i) auto
next
  case Base_Directory
  with assms show ?thesis
    by (cases i) auto
qed

lemma handle_answer_keeps_answered:
  assumes inv: "answered_below (currentStep w) (answers w)"
    and below: "currentStep w < 5"
    and res: "react (prompt_for e (answers w) (steps ! currentStep w)) i = Resolved v"
  shows "answered_below (currentStep (handle_answer w v)) (answers (handle_answer w v))
         \<and> currentStep (handle_answer w v) \<le> 5"
proof (cases "v = Str ''back''")
  case True
  with inv below show ?thesis
    by (simp add: handle_answer_back answered_below_mono)
next
  case False
  from below consider "currentStep w = 0" | "currentStep w = 1" | "currentStep w = 2"
    | "currentStep w = 3" | "currentStep w = 4"
    by linarith
  then show ?thesis
  proof cases
    case 1
    with inv resolved_answer_ok [OF res False] False show ?thesis
      by (simp add: handle_answer_store answered_below_Suc answered_below_0 steps_nth)
  next
    case 2
    with inv resolved_answer_ok [OF res False] False show ?thesis
      by (simp add: handle_answer_store answered_below_Suc answered_below_0 steps_nth
          answer_key_simps)
  next
    case 3
    with inv resolved_answer_ok [OF res False] False show ?thesis
      by (simp add: handle_answer_store answered_below_Suc answered_below_0 steps_nth
          answer_key_simps numeral_2_eq_2 steps_nth_Suc)
  next
    case 4
    with inv resolved_answer_ok [OF res False] False show ?thesis
      by (simp add: handle_answer_store answered_below_Suc answered_below_0 steps_nth
          answer_key_simps numeral_3_eq_3 steps_nth_Suc)
  next
    case 5
    with inv resolved_answer_ok [OF res False] False show ?thesis
      by (simp add: handle_answer_store answered_below_Suc answered_below_0 steps_nth
          answer_key_simps eval_nat_numeral steps_nth_Suc)
  qed
qed

lemma completed_answered:
  "snd (main_loop e w ins) = Completed a \<Longrightarrow> answered_below (currentStep w) (answers w)
     \<Longrightarrow> currentStep w \<le> 5 \<Longrightarrow> answered_below 5 a"
  "snd (await_answer e w ins) = Completed a \<Longrightarrow> answered_below (currentStep w) (answers w)
     \<Longrightarrow> currentStep w < 5 \<Longrightarrow> answered_below 5 a"
proof (induction e w ins and e w ins rule: main_loop_await_answer.induct)
  case (1 e w ins)
  show ?case
  proof (cases "currentStep w < length steps")
    case True
    with "1.prems" "1.IH" show ?thesis
      by (simp add: main_loop.simps [of e w] snd_emit steps_nth)
  next
    case False
    with "1.prems" have "currentStep w = 5" "a = answers w"
      by (simp_all add: main_loop.simps [of e w] steps_nth)
    with "1.prems"(2) show ?thesis by simp
  qed
next
  case (2 e w)
  then show ?case by simp
next
  case (3 e w i ins)
  show ?case
  proof (cases "react (prompt_for e (answers w) (steps ! currentStep w)) i")
    case (Resolved v)
    from handle_answer_keeps_answered [OF "3.prems"(2,3) Resolved] "3.prems"(1) Resolved
      "3.IH"(1) [OF Resolved]
    show ?thesis by simp
  next
    case Cancel_symbol
    with "3.prems" show ?thesis by simp
  next
    case (Rejected problem)
    with "3.prems" "3.IH"(2) [OF Rejected] show ?thesis
      by (simp add: snd_emit)
  next
    case Ignored
    with "3.prems" "3.IH"(3) [OF Ignored] show ?thesis by simp
  qed
qed

lemma completed_wizard_answers:
  assumes "snd (main_loop e initial_wizard ins) = Completed a"
  shows "\<exists>rn m k b d. a ''routename'' = Str rn \<and> trim rn \<noteq> [] \<and> rn \<noteq> ''back''
           \<and> a ''httpmethod'' = Str m \<and> m \<in> set HttpMethod
           \<and> a ''template'' = Str k \<and> k \<in> set (map fst templates_entries)
           \<and> a ''typescript'' = Bool b
           \<and> a ''basedirectory'' = Str d \<and> d \<noteq> ''back''"
proof -
  have "answered_below 5 a"
    using completed_answered(1) [OF assms] by (simp add: initial_wizard_def answered_below_0)
  then show ?thesis
    by (simp add: eval_nat_numeral answered_below_Suc answered_below_0 steps_def
        answer_key_simps split: js_value.splits)
qed

text \<open>
  C10. The test for \<^verbatim>\<open>back\<close> applies to the text prompts as well: the text \<^verbatim>\<open>back\<close>
  entered at the route name step leaves the wizard at that step, and entered at the
  base directory step it moves the wizard to the step before; in neither case is it
  stored. So the answers of a completed wizard never hold \<^verbatim>\<open>back\<close> as route name
  or base directory, and the emitter is never asked for a route named \<^verbatim>\<open>back\<close>.
\<close>

theorem back_is_never_an_answer:
  "(currentStep w = 0 \<longrightarrow> await_answer e w (Typed ''back'' # ins) = main_loop e w ins)
   \<and> (currentStep w = 4 \<longrightarrow>
        await_answer e w (Typed ''back'' # ins) = main_loop e (w\<lparr>currentStep := 3\<rparr>) ins)
   \<and> (snd (main_loop e initial_wizard ins') = Completed a \<longrightarrow>
        a ''routename'' \<noteq> Str ''back'' \<and> a ''basedirectory'' \<noteq> Str ''back''
        \<and> routeName (request_of e a) \<noteq> Str ''back'')"
proof (intro conjI impI)
  assume at: "currentStep w = 0"
  then have "w\<lparr>currentStep := 0\<rparr> = w"
    by (cases w) simp
  moreover from at
  have "await_answer e w (Typed ''back'' # ins) = main_loop e (w\<lparr>currentStep := 0\<rparr>) ins"
    by (simp add: steps_nth validate_route_name_def trim_back handle_answer_back)
  ultimately show "await_answer e w (Typed ''back'' # ins) = main_loop e w ins"
    by (simp only:)
next
  assume "currentStep w = 4"
  then show "await_answer e w (Typed ''back'' # ins) = main_loop e (w\<lparr>currentStep := 3\<rparr>) ins"
    by (simp add: steps_nth handle_answer_back)
next
  assume fin: "snd (main_loop e initial_wizard ins') = Completed a"
  from completed_wizard_answers [OF fin]
  show "a ''routename'' \<noteq> Str ''back''" and "a ''basedirectory'' \<noteq> Str ''back''"
    and "routeName (request_of e a) \<noteq> Str ''back''"
    by (auto simp: request_of_def)
qed

theorem back_is_never_an_answer_witness:
  "await_answer \<lparr>cwd = ''/home'', mkdir_error = (\<lambda>p fs. None), write_error = (\<lambda>p c fs. None)\<rparr>
      \<lparr>answers = (\<lambda>k. Undefined), currentStep = 0\<rparr> [Typed ''back'']
     = main_loop \<lparr>cwd = ''/home'', mkdir_error = (\<lambda>p fs. None), write_error = (\<lambda>p c fs. None)\<rparr>
         \<lparr>answers = (\<lambda>k. Undefined), currentStep = 0\<rparr> []
   \<and> (\<exists>a. snd (main_loop
               \<lparr>cwd = ''/home'', mkdir_error = (\<lambda>p fs. None), write_error = (\<lambda>p c fs. None)\<rparr>
               initial_wizard
               [Typed ''back'', Typed ''a'', Picked ''GET'', Picked ''basic'', Answered True,
                Typed ''back'', Answered False, Typed ''/tmp/x'']) = Completed a
          \<and> a ''routename'' \<noteq> Str ''back'' \<and> a ''basedirectory'' \<noteq> Str ''back'')"
proof -
  let ?e = "\<lparr>cwd = ''/home'', mkdir_error = (\<lambda>p fs. None), write_error = (\<lambda>p c fs. None)\<rparr>"
  let ?w = "\<lparr>answers = (\<lambda>k. Undefined), currentStep = 0\<rparr>"
  let ?ins = "[Typed ''back'', Typed ''a'', Picked ''GET'', Picked ''basic'', Answered True,
                Typed ''back'', Answered False, Typed ''/tmp/x'']"
  have "\<exists>a. snd (main_loop ?e initial_wizard ?ins) = Completed a"
    by (simp add: main_loop.simps initial_wizard_def steps_def snd_emit handle_answer_def
        validate_route_name_def trim_a trim_back HttpMethod_def templates_entries_def)
  then obtain a where a: "snd (main_loop ?e initial_wizard ?ins) = Completed a" ..
  note th = back_is_never_an_answer [of ?w ?e "[]" ?ins a]
  have at: "currentStep ?w = 0"
    by simp
  note first = th [THEN conjunct1, rule_format, OF at]
  note second = th [THEN conjunct2, THEN conjunct2, rule_format, OF a]
  from a first second [THEN conjunct1] second [THEN conjunct2, THEN conjunct1]
  show ?thesis
    by (intro conjI exI [of _ a])
qed

text \<open>
  C5. Once the wizard has completed, the program prints the same closing messages and
  ends with exit status 0 whatever the emitter does. A failure of the directory
  creation or of the file write is caught in the emitter, which prints the error with
  the route name and leaves every file as it was; without a failure the emitter
  prints the path and writes the file.
\<close>

theorem emission_failure_is_swallowed:
  assumes "snd (main_loop e initial_wizard ins) = Completed a"
  shows "\<exists>rn P C gen fs'.
      a ''routename'' = Str rn
    \<and> main e ins fs =
        (boot_output @ fst (main_loop e initial_wizard ins)
           @ [Spinner_start ''Generating API route''] @ gen @ closing_output,
         Exited 0, fs')
    \<and> (case mkdir_error e (path_dirname P) fs of
          Some code \<Rightarrow> gen = [Console_error_generating (Str rn) (SystemError code)] \<and> fs' = fs
        | None \<Rightarrow>
            (case write_error e P C (fs\<lparr>dirs := dirs fs \<union> set (parent_dirs (path_dirname P))\<rparr>) of
               Some code \<Rightarrow>
                 gen = [Console_error_generating (Str rn) (SystemError code)]
                 \<and> files fs' = files fs
             | None \<Rightarrow> gen = [Console_log_generated P] \<and> files fs' = (files fs)(P \<mapsto> C)))"
proof -
  from completed_wizard_answers [OF assms] obtain rn m k b d where
    a: "a ''routename'' = Str rn" "a ''httpmethod'' = Str m" "a ''template'' = Str k"
       "k \<in> set (map fst templates_entries)" "a ''typescript'' = Bool b"
       "a ''basedirectory'' = Str d"
    by blast
  from a(4) obtain t where t: "templates k = Some t"
    using map_of_eq_None_iff [of templates_entries k] by (auto simp: templates_def)
  define req where "req = request_of e a"
  define P where "P = path_join ([if d \<noteq> [] then d else cwd e, ''app'', ''api'']
                 @ split (CHR ''/'') rn @ [''route.'' @ (if b then ''ts'' else ''js'')])"
  define C where "C = getContent t (method_field (config req)) (Str rn) (Bool b)"
  define fs1 where "fs1 = fs\<lparr>dirs := dirs fs \<union> set (parent_dirs (path_dirname P))\<rparr>"
  have req: "routeName req = Str rn" "baseDir (options req) = Str (if d \<noteq> [] then d else cwd e)"
    "useTypeScript (options req) = Bool b" "template (config req) = Some t"
    using a t by (simp_all add: req_def request_of_def js_or_def defaultConfig_def)
  have body: "try_generate e req fs =
     (case mkdir_error e (path_dirname P) fs of
        Some code \<Rightarrow> (Inl (SystemError code), fs)
      | None \<Rightarrow>
          (case write_error e P C fs1 of
             Some code \<Rightarrow> (Inl (SystemError code), fs1)
           | None \<Rightarrow> (Inr P, fs1\<lparr>files := (files fs)(P \<mapsto> C)\<rparr>)))"
    by (rule try_generate_wellformed [OF req P_def C_def fs1_def])
  obtain gen fs' where gen: "generateApiRoute e req fs = (gen, fs')"
    by (cases "generateApiRoute e req fs")
  have run: "main e ins fs =
        (boot_output @ fst (main_loop e initial_wizard ins)
           @ [Spinner_start ''Generating API route''] @ gen @ closing_output,
         Exited 0, fs')"
    using assms gen by (cases "main_loop e initial_wizard ins") (simp add: main_def req_def)
  have files1: "files fs1 = files fs"
    by (simp add: fs1_def)
  have outcome: "case mkdir_error e (path_dirname P) fs of
          Some code \<Rightarrow> gen = [Console_error_generating (Str rn) (SystemError code)] \<and> fs' = fs
        | None \<Rightarrow>
            (case write_error e P C fs1 of
               Some code \<Rightarrow>
                 gen = [Console_error_generating (Str rn) (SystemError code)]
                 \<and> files fs' = files fs
             | None \<Rightarrow> gen = [Console_log_generated P] \<and> files fs' = (files fs)(P \<mapsto> C))"
  proof (cases "mkdir_error e (path_dirname P) fs")
    case (Some code)
    with body have "try_generate e req fs = (Inl (SystemError code), fs)"
      by simp
    with gen req(1) Some show ?thesis
      by (simp add: generateApiRoute_def)
  next
    case None
    show ?thesis
    proof (cases "write_error e P C fs1")
      case (Some code)
      with body None have "try_generate e req fs = (Inl (SystemError code), fs1)"
        by simp
      with gen req(1) None Some files1 show ?thesis
        by (auto simp: generateApiRoute_def)
    next
      case no_write_error: None
      with body None have "try_generate e req fs = (Inr P, fs1\<lparr>files := (files fs)(P \<mapsto> C)\<rparr>)"
        by simp
      with gen None no_write_error show ?thesis
        by (auto simp: generateApiRoute_def)
    qed
  qed
  show ?thesis
    using a(1) run outcome unfolding fs1_def
    by (intro exI [of _ rn] exI [of _ P] exI [of _ C] exI [of _ gen] exI [of _ fs'] conjI)
qed

theorem emission_failure_is_swallowed_witness:
  "\<exists>outs.
     main \<lparr>cwd = ''/home'', mkdir_error = (\<lambda>p fs. Some ''EACCES''), write_error = (\<lambda>p c fs. None)\<rparr>
       [Typed ''a'', Picked ''GET'', Picked ''basic'', Answered True, Typed ''/tmp/x'']
       \<lparr>files = Map.empty, dirs = {}\<rparr>
     = (outs @ [Console_error_generating (Str ''a'') (SystemError ''EACCES'')] @ closing_output,
        Exited 0, \<lparr>files = Map.empty, dirs = {}\<rparr>)"
proof -
  let ?e = "\<lparr>cwd = ''/home'', mkdir_error = (\<lambda>p fs. Some ''EACCES''),
             write_error = (\<lambda>p c fs. None)\<rparr>"
  let ?ins = "[Typed ''a'', Picked ''GET'', Picked ''basic'', Answered True, Typed ''/tmp/x'']"
  let ?fs = "\<lparr>files = Map.empty, dirs = {}\<rparr>"
  have "case snd (main_loop ?e initial_wizard ?ins) of
          Completed a \<Rightarrow> a ''routename'' = Str ''a'' | _ \<Rightarrow> False"
    by (simp add: main_loop.simps initial_wizard_def steps_def snd_emit handle_answer_def
        validate_route_name_def trim_a HttpMethod_def templates_entries_def answer_key_simps)
  then obtain a where a: "snd (main_loop ?e initial_wizard ?ins) = Completed a"
    and rn: "a ''routename'' = Str ''a''"
    by (cases "snd (main_loop ?e initial_wizard ?ins)") simp_all
  from emission_failure_is_swallowed [OF a, of ?fs]
  obtain rn' P C gen fs' where
    r: "a ''routename'' = Str rn'"
    and run: "main ?e ?ins ?fs =
        (boot_output @ fst (main_loop ?e initial_wizard ?ins)
           @ [Spinner_start ''Generating API route''] @ gen @ closing_output,
         Exited 0, fs')"
    and outcome: "case mkdir_error ?e (path_dirname P) ?fs of
          Some code \<Rightarrow> gen = [Console_error_generating (Str rn') (SystemError code)] \<and> fs' = ?fs
        | None \<Rightarrow>
            (case write_error ?e P C (?fs\<lparr>dirs := dirs ?fs \<union> set (parent_dirs (path_dirname P))\<rparr>) of
               Some code \<Rightarrow>
                 gen = [Console_error_generating (Str rn') (SystemError code)]
                 \<and> files fs' = files ?fs
             | None \<Rightarrow> gen = [Console_log_generated P] \<and> files fs' = (files ?fs)(P \<mapsto> C))"
    by (elim exE conjE)
  from outcome have "gen = [Console_error_generating (Str rn') (SystemError ''EACCES'')]"
    and "fs' = ?fs"
    by simp_all
  moreover from r rn have "rn' = ''a''"
    by simp
  ultimately have "main ?e ?ins ?fs =
     ((boot_output @ fst (main_loop ?e initial_wizard ?ins) @ [Spinner_start ''Generating API route''])
        @ [Console_error_generating (Str ''a'') (SystemError ''EACCES'')] @ closing_output,
      Exited 0, ?fs)"
    using run by (simp only: append_assoc)
  then show ?thesis
    by (intro exI)
qed

end
